theory Spec2Isabelle
  imports Complex_Main
begin

section \<open>Numbers, points and errors\<close>

text \<open>
  The engine computes with JavaScript numbers. In the model of the engine they are
  real numbers and every arithmetic operation is exact; where the rounding of the
  operations is the question, the matrix operations are modelled a second time, on
  doubles, with every operation rounded (section on arithmetic in doubles). A division by zero, which
  in JavaScript yields Infinity or NaN and lets the computation go on with non-finite
  values, is an explicit outcome \<open>NonFinite\<close> of the model: the model follows the
  program no further than that. A recursion that does not come back (JavaScript ends it
  with a stack overflow) is the outcome \<open>OutOfFuel\<close> for every amount of fuel, and reading
  a property of \<open>undefined\<close> is \<open>TypeError\<close>.
\<close>

datatype error = OutOfFuel | NonFinite | TypeError

text \<open>
  Modelled from the spec: the class \<open>Kiwi.Geom.Point\<close> is not in the source. The spec has
  positions, scales, origins and pivots as pairs \<open>(x, y)\<close>; a point is the record of its
  two numbers, \<open>new Point(x, y)\<close> builds it and \<open>setTo(x, y)\<close> overwrites both.
\<close>

record Point =
  pt_x :: real
  pt_y :: real

definition new_Point :: "real \<Rightarrow> real \<Rightarrow> Point" where
  "new_Point x y = \<lparr>pt_x = x, pt_y = y\<rparr>"

definition Point_setTo :: "real \<Rightarrow> real \<Rightarrow> Point \<Rightarrow> Point" where
  "Point_setTo x y pt = pt\<lparr>pt_x := x, pt_y := y\<rparr>"

section \<open>Kiwi.Geom.Matrix\<close>

text \<open>The six fields \<open>a b c d tx ty\<close> of the source, prefixed so that they do not
  capture variable names.\<close>

record Matrix =
  m_a :: real
  m_b :: real
  m_c :: real
  m_d :: real
  m_tx :: real
  m_ty :: real

text \<open>\<open>new Matrix()\<close> with the constructor's default arguments.\<close>

definition new_Matrix :: Matrix where
  "new_Matrix = \<lparr>m_a = 1, m_b = 0, m_c = 0, m_d = 1, m_tx = 0, m_ty = 0\<rparr>"

definition setTo :: "real \<Rightarrow> real \<Rightarrow> real \<Rightarrow> real \<Rightarrow> real \<Rightarrow> real \<Rightarrow> Matrix \<Rightarrow> Matrix" where
  "setTo a b c d tx ty this =
     this\<lparr>m_a := a, m_b := b, m_c := c, m_d := d, m_tx := tx, m_ty := ty\<rparr>"

definition setToMatrix :: "Matrix \<Rightarrow> Matrix \<Rightarrow> Matrix" where
  "setToMatrix m this =
     this\<lparr>m_a := m_a m, m_b := m_b m, m_c := m_c m, m_d := m_d m,
          m_tx := m_tx m, m_ty := m_ty m\<rparr>"

text \<open>\<open>multiplyMatrix\<close> fills a fresh matrix \<open>ret\<close> and returns it.\<close>

definition multiplyMatrix :: "Matrix \<Rightarrow> Matrix \<Rightarrow> Matrix" where
  "multiplyMatrix this b =
     new_Matrix\<lparr>
       m_a := m_a this * m_a b + m_c this * m_b b,
       m_b := m_b this * m_a b + m_d this * m_b b,
       m_c := m_a this * m_c b + m_c this * m_d b,
       m_d := m_b this * m_c b + m_d this * m_d b,
       m_tx := m_a this * m_tx b + m_c this * m_ty b + m_tx this,
       m_ty := m_b this * m_tx b + m_d this * m_ty b + m_ty this\<rparr>"

definition clone :: "Matrix \<Rightarrow> Matrix" where
  "clone this = setTo (m_a this) (m_b this) (m_c this) (m_d this) (m_tx this) (m_ty this) new_Matrix"

definition transformPoint :: "Matrix \<Rightarrow> Point \<Rightarrow> Point" where
  "transformPoint this pt =
     new_Point (m_a this * pt_x pt + m_c this * pt_y pt + m_tx this)
               (m_b this * pt_x pt + m_d this * pt_y pt + m_ty this)"

text \<open>\<open>transformPointInPlace\<close> overwrites the point it is given; the result is the
  new content of that point.\<close>

definition transformPointInPlace :: "Matrix \<Rightarrow> Point \<Rightarrow> Point" where
  "transformPointInPlace this pt =
     (let x = pt_x pt; y = pt_y pt;
          pt1 = pt\<lparr>pt_x := m_a this * x + m_c this * y + m_tx this\<rparr>
      in pt1\<lparr>pt_y := m_b this * x + m_d this * y + m_ty this\<rparr>)"

text \<open>
  \<open>invert\<close> divides six times by \<open>n = a1 * d1 - b1 * c1\<close>. The assignments run in the
  source's order: \<open>tx\<close> is overwritten before \<open>ty\<close> is computed, which is why the source
  saves \<open>tx1\<close>, while \<open>this.ty\<close> is still the old value in both of the last two lines.
\<close>

definition invert :: "Matrix \<Rightarrow> error + Matrix" where
  "invert this =
     (let a1 = m_a this; b1 = m_b this; c1 = m_c this; d1 = m_d this; tx1 = m_tx this;
          n = a1 * d1 - b1 * c1
      in if n = 0 then Inl NonFinite
         else
           let t1 = this\<lparr>m_a := d1 / n\<rparr>;
               t2 = t1\<lparr>m_b := - b1 / n\<rparr>;
               t3 = t2\<lparr>m_c := - c1 / n\<rparr>;
               t4 = t3\<lparr>m_d := a1 / n\<rparr>;
               t5 = t4\<lparr>m_tx := (c1 * m_ty t4 - d1 * tx1) / n\<rparr>;
               t6 = t5\<lparr>m_ty := - (a1 * m_ty t5 - b1 * tx1) / n\<rparr>
           in Inr t6)"

definition invertCopy :: "Matrix \<Rightarrow> error + Matrix" where
  "invertCopy this = invert (clone this)"

definition equals :: "Matrix \<Rightarrow> Matrix \<Rightarrow> bool" where
  "equals this M \<longleftrightarrow>
     m_a this = m_a M \<and> m_b this = m_b M \<and> m_c this = m_c M \<and> m_d this = m_d M \<and>
     m_tx this = m_tx M \<and> m_ty this = m_ty M"

subsection \<open>Matrices as objects\<close>

text \<open>
  Whether a method changes its receiver is a question about objects, not values. Here a
  store holds the matrix objects; a reference is an index into it, and \<open>new\<close> appends.
  Each method is the source's sequence of field reads and writes on the store.
\<close>

type_synonym mstore = "Matrix list"

definition alloc_Matrix :: "mstore \<Rightarrow> mstore \<times> nat" where
  "alloc_Matrix s = (s @ [new_Matrix], length s)"

definition multiplyMatrix_obj :: "mstore \<Rightarrow> nat \<Rightarrow> nat \<Rightarrow> mstore \<times> nat" where
  "multiplyMatrix_obj s this b =
     (let (s0, ret) = alloc_Matrix s;
          s1 = s0[ret := (s0 ! ret)\<lparr>m_a := m_a (s0 ! this) * m_a (s0 ! b) + m_c (s0 ! this) * m_b (s0 ! b)\<rparr>];
          s2 = s1[ret := (s1 ! ret)\<lparr>m_b := m_b (s1 ! this) * m_a (s1 ! b) + m_d (s1 ! this) * m_b (s1 ! b)\<rparr>];
          s3 = s2[ret := (s2 ! ret)\<lparr>m_c := m_a (s2 ! this) * m_c (s2 ! b) + m_c (s2 ! this) * m_d (s2 ! b)\<rparr>];
          s4 = s3[ret := (s3 ! ret)\<lparr>m_d := m_b (s3 ! this) * m_c (s3 ! b) + m_d (s3 ! this) * m_d (s3 ! b)\<rparr>];
          s5 = s4[ret := (s4 ! ret)\<lparr>m_tx := m_a (s4 ! this) * m_tx (s4 ! b) + m_c (s4 ! this) * m_ty (s4 ! b) + m_tx (s4 ! this)\<rparr>];
          s6 = s5[ret := (s5 ! ret)\<lparr>m_ty := m_b (s5 ! this) * m_tx (s5 ! b) + m_d (s5 ! this) * m_ty (s5 ! b) + m_ty (s5 ! this)\<rparr>]
      in (s6, ret))"

definition setToMatrix_obj :: "mstore \<Rightarrow> nat \<Rightarrow> nat \<Rightarrow> mstore" where
  "setToMatrix_obj s this m =
     (let s1 = s[this := (s ! this)\<lparr>m_a := m_a (s ! m)\<rparr>];
          s2 = s1[this := (s1 ! this)\<lparr>m_b := m_b (s1 ! m)\<rparr>];
          s3 = s2[this := (s2 ! this)\<lparr>m_c := m_c (s2 ! m)\<rparr>];
          s4 = s3[this := (s3 ! this)\<lparr>m_d := m_d (s3 ! m)\<rparr>];
          s5 = s4[this := (s4 ! this)\<lparr>m_tx := m_tx (s4 ! m)\<rparr>];
          s6 = s5[this := (s5 ! this)\<lparr>m_ty := m_ty (s5 ! m)\<rparr>]
      in s6)"

definition clone_obj :: "mstore \<Rightarrow> nat \<Rightarrow> mstore \<times> nat" where
  "clone_obj s this = (s @ [clone (s ! this)], length s)"

text \<open>\<open>preMultiplyMatrix(b) { this.setToMatrix(b.clone().multiplyMatrix(this)); }\<close>\<close>

definition preMultiplyMatrix_obj :: "mstore \<Rightarrow> nat \<Rightarrow> nat \<Rightarrow> mstore" where
  "preMultiplyMatrix_obj s this b =
     (let (s1, c) = clone_obj s b;
          (s2, r) = multiplyMatrix_obj s1 c this
      in setToMatrix_obj s2 this r)"

text \<open>\<open>postMultiply(b) { this.multiplyMatrix(b); }\<close>: the returned reference is dropped.\<close>

definition postMultiply_obj :: "mstore \<Rightarrow> nat \<Rightarrow> nat \<Rightarrow> mstore" where
  "postMultiply_obj s this b = fst (multiplyMatrix_obj s this b)"

section \<open>Matrix arithmetic in doubles\<close>

text \<open>
  A JavaScript number is an IEEE 754 double: a sign, 53 significant bits and an exponent.
  The finite doubles are modelled as the real numbers they denote, and every arithmetic
  operation of the program as the exact operation followed by \<open>fl\<close>, rounding to the
  nearest double, ties to the even significand. \<open>binade x\<close> is the exponent \<open>e\<close> with
  \<open>2 ^ e \<le> \<bar>x\<bar> < 2 ^ (e + 1)\<close>, computed from the number of binary digits of the integer
  part of \<open>\<bar>x\<bar>\<close> or of \<open>1 / \<bar>x\<bar>\<close>; the doubles next to \<open>x\<close> are the multiples of
  \<open>2 ^ (e - 52)\<close>, and of \<open>2 ^ -1074\<close> in the subnormal range. A result of magnitude
  \<open>2 ^ 1024\<close> or more is \<open>Infinity\<close> in JavaScript and \<open>NonFinite\<close> here, as is a division by
  zero. The sign of zero is not represented.
\<close>

fun bit_length :: "nat \<Rightarrow> nat" where
  "bit_length n = (if n = 0 then 0 else Suc (bit_length (n div 2)))"

declare bit_length.simps [simp del]

definition pow2 :: "int \<Rightarrow> real" where
  "pow2 e = (if 0 \<le> e then 2 ^ nat e else 1 / 2 ^ nat (- e))"

definition binade :: "real \<Rightarrow> int" where
  "binade x = (if 1 \<le> \<bar>x\<bar> then int (bit_length (nat \<lfloor>\<bar>x\<bar>\<rfloor>)) - 1
               else - int (bit_length (nat (\<lceil>1 / \<bar>x\<bar>\<rceil> - 1))))"

definition round_even :: "real \<Rightarrow> int" where
  "round_even y =
     (let f = \<lfloor>y\<rfloor>; r = y - of_int f
      in if r < 1 / 2 then f else if 1 / 2 < r then f + 1 else if even f then f else f + 1)"

definition fl :: "real \<Rightarrow> error + real" where
  "fl x =
     (if x = 0 then Inr 0
      else let q = max (binade x - 52) (- 1074);
               r = of_int (round_even (x / pow2 q)) * pow2 q
           in if 2 ^ 1024 \<le> \<bar>r\<bar> then Inl NonFinite else Inr r)"

definition and_then :: "error + 'a \<Rightarrow> ('a \<Rightarrow> error + 'b) \<Rightarrow> error + 'b" where
  "and_then m f = (case m of Inl err \<Rightarrow> Inl err | Inr v \<Rightarrow> f v)"


















section \<open>Kiwi.Geom.Transform\<close>

text \<open>
  Transforms refer to each other (\<open>_parent\<close>, \<open>_children\<close>), and the dirty cascade and the
  concatenated matrix walk these references, so transforms live in a heap: a reference
  is a natural number and the heap gives every reference its object. The points and
  matrices a transform owns are embedded by value. The setters that write numbers into
  the owned points are modelled (\<open>setXY\<close>, \<open>x\<close>, \<open>y\<close>, \<open>setOrigin\<close>, ...), and so are writes
  into the points that the getters \<open>xy\<close>, \<open>origin\<close> and \<open>pivotPoint\<close> hand out; the setters
  that install a caller's point object are not.
\<close>

record Transform =
  t_dirty :: bool
  t_origin :: Point
  t_pivotPoint :: Point
  t_scale :: Point
  t_xy :: Point
  t_rotation :: real
  t_matrix :: Matrix
  t_cachedConcatenatedMatrix :: Matrix
  t_children :: "nat list"
  t_parent :: "nat option"

type_synonym heap = "nat \<Rightarrow> Transform"

text \<open>The object right after \<open>new Transform()\<close>: the field initialisers, then
  \<open>setTransform(0, 0, 1, 1, 0, 0, 0)\<close> (which sets \<open>dirty\<close> on a transform without
  children), then the two fresh matrices.\<close>

definition new_Transform :: Transform where
  "new_Transform =
     \<lparr>t_dirty = True, t_origin = new_Point 0 0, t_pivotPoint = new_Point 0 0,
      t_scale = new_Point 1 1, t_xy = new_Point 0 0, t_rotation = 0,
      t_matrix = new_Matrix, t_cachedConcatenatedMatrix = new_Matrix,
      t_children = [], t_parent = None\<rparr>"

text \<open>\<open>Array.prototype.forEach\<close> with a callback that may fail: the first failure ends
  the loop.\<close>

fun forEach :: "('a \<Rightarrow> 's \<Rightarrow> error + 's) \<Rightarrow> 'a list \<Rightarrow> 's \<Rightarrow> error + 's" where
  "forEach f [] s = Inr s"
| "forEach f (e # es) s = (case f e s of Inl err \<Rightarrow> Inl err | Inr s' \<Rightarrow> forEach f es s')"

text \<open>
  The setter of \<open>dirty\<close>. With \<open>false\<close> it clears the flag of this transform only. With
  \<open>true\<close> it sets the flag and then runs the callback on every entry \<open>e\<close> of \<open>_children\<close>, in
  order: the callback assigns \<open>e.dirty = true\<close>, which runs the setter again there,
  unless \<open>e\<close> is this transform itself. The fuel bounds the depth of these nested
  calls.

  The state of the setter is the heap together with a log that the program does not
  have: each time the loop of the setter of \<open>this\<close> reaches an entry \<open>e\<close>, the pair
  \<open>(this, e)\<close> is appended. The log is how a statement can count the visits of a cascade;
  nothing reads it.
\<close>

fun dirty_set_log ::
  "nat \<Rightarrow> nat \<Rightarrow> bool \<Rightarrow> heap \<times> (nat \<times> nat) list \<Rightarrow> error + heap \<times> (nat \<times> nat) list" where
  "dirty_set_log n this False (h, lg) = Inr (h(this := (h this)\<lparr>t_dirty := False\<rparr>), lg)"
| "dirty_set_log 0 this True (h, lg) = Inl OutOfFuel"
| "dirty_set_log (Suc n) this True (h, lg) =
     forEach (\<lambda>e s. if e \<noteq> this
                     then dirty_set_log n e True (fst s, snd s @ [(this, e)])
                     else Inr (fst s, snd s @ [(this, e)]))
       (t_children (h this))
       (h(this := (h this)\<lparr>t_dirty := True\<rparr>), lg)"

text \<open>The setter as the program has it: started with an empty log, the log dropped.\<close>

definition dirty_set :: "nat \<Rightarrow> nat \<Rightarrow> bool \<Rightarrow> heap \<Rightarrow> error + heap" where
  "dirty_set n this val h =
     (case dirty_set_log n this val (h, []) of Inl err \<Rightarrow> Inl err | Inr s \<Rightarrow> Inr (fst s))"

text \<open>
  For the proofs about the heap: the transforms on which a cascade runs the setter with
  \<open>true\<close>, in the order of the calls, computed from the children lists alone.
\<close>

fun dirty_trace :: "nat \<Rightarrow> heap \<Rightarrow> nat \<Rightarrow> error + nat list" where
  "dirty_trace 0 h this = Inl OutOfFuel"
| "dirty_trace (Suc n) h this =
     forEach (\<lambda>e tr. if e \<noteq> this
                      then (case dirty_trace n h e of Inl err \<Rightarrow> Inl err | Inr tr' \<Rightarrow> Inr (tr @ tr'))
                      else Inr tr)
       (t_children (h this)) [this]"

definition setOrigin :: "nat \<Rightarrow> nat \<Rightarrow> real \<Rightarrow> real \<Rightarrow> heap \<Rightarrow> error + heap" where
  "setOrigin fuel this x y h =
     (let h1 = h(this := (h this)\<lparr>t_origin := (t_origin (h this))\<lparr>pt_x := x\<rparr>\<rparr>);
          h2 = h1(this := (h1 this)\<lparr>t_origin := (t_origin (h1 this))\<lparr>pt_y := y\<rparr>\<rparr>)
      in dirty_set fuel this True h2)"

text \<open>
  \<open>get xy() { return this._xy; }\<close>, and the same for \<open>origin\<close> and \<open>pivotPoint\<close>: the caller
  gets the point that the transform owns, and \<open>setTo\<close> on it overwrites the two numbers
  inside the transform. No setter of the transform runs, so no dirty flag changes. These
  are \<open>t.xy.setTo(x, y)\<close>, \<open>t.origin.setTo(x, y)\<close> and \<open>t.pivotPoint.setTo(x, y)\<close>.
\<close>

definition xy_setTo :: "nat \<Rightarrow> real \<Rightarrow> real \<Rightarrow> heap \<Rightarrow> heap" where
  "xy_setTo this x y h = h(this := (h this)\<lparr>t_xy := Point_setTo x y (t_xy (h this))\<rparr>)"

definition origin_setTo :: "nat \<Rightarrow> real \<Rightarrow> real \<Rightarrow> heap \<Rightarrow> heap" where
  "origin_setTo this x y h = h(this := (h this)\<lparr>t_origin := Point_setTo x y (t_origin (h this))\<rparr>)"

definition pivotPoint_setTo :: "nat \<Rightarrow> real \<Rightarrow> real \<Rightarrow> heap \<Rightarrow> heap" where
  "pivotPoint_setTo this x y h =
     h(this := (h this)\<lparr>t_pivotPoint := Point_setTo x y (t_pivotPoint (h this))\<rparr>)"

definition scaleX_set :: "nat \<Rightarrow> nat \<Rightarrow> real \<Rightarrow> heap \<Rightarrow> error + heap" where
  "scaleX_set fuel this v h =
     dirty_set fuel this True (h(this := (h this)\<lparr>t_scale := (t_scale (h this))\<lparr>pt_x := v\<rparr>\<rparr>))"




text \<open>\<open>setXY(x, y) { this._xy.setTo(x, y); this.dirty = true; }\<close>\<close>

definition setXY :: "nat \<Rightarrow> nat \<Rightarrow> real \<Rightarrow> real \<Rightarrow> heap \<Rightarrow> error + heap" where
  "setXY fuel this x y h =
     dirty_set fuel this True (h(this := (h this)\<lparr>t_xy := (t_xy (h this))\<lparr>pt_x := x, pt_y := y\<rparr>\<rparr>))"



definition performTransformation :: "Transform \<Rightarrow> Transform" where
  "performTransformation this =
     (let cs = cos (t_rotation this); sn = sin (t_rotation this)
      in this\<lparr>t_matrix :=
           setTo (cs * pt_x (t_scale this))
                 (- sn * pt_y (t_scale this))
                 (sn * pt_x (t_scale this))
                 (cs * pt_y (t_scale this))
                 ((((- pt_x (t_pivotPoint this)) * cs + (- pt_y (t_pivotPoint this)) * sn
                      + pt_x (t_pivotPoint this)) * pt_x (t_scale this)
                    + ((- pt_x (t_origin this)) * pt_x (t_scale this) + pt_x (t_origin this)))
                  + pt_x (t_xy this))
                 ((((- pt_x (t_pivotPoint this)) * (- sn) + (- pt_y (t_pivotPoint this)) * cs
                      + pt_y (t_pivotPoint this)) * pt_y (t_scale this)
                    + ((- pt_y (t_origin this)) * pt_y (t_scale this) + pt_y (t_origin this)))
                  + pt_y (t_xy this))
                 (t_matrix this)\<rparr>)"

text \<open>
  \<open>getConcatenatedMatrix\<close>. A dirty transform rebuilds its matrix, copies it into the
  cache, and, when it has a parent, asks the parent for its concatenated matrix (which
  may clean the parent in turn) and replaces the cache by the product; then it clears
  its own flag. The cache is read after the parent's call has returned, as the argument
  of \<open>multiplyMatrix\<close> is in the source. The fuel bounds the calls up the parent chain.
\<close>

fun getConcatenatedMatrix :: "nat \<Rightarrow> nat \<Rightarrow> heap \<Rightarrow> error + (heap \<times> Matrix)" where
  "getConcatenatedMatrix 0 this h = Inl OutOfFuel"
| "getConcatenatedMatrix (Suc n) this h =
     (if t_dirty (h this) then
        let h1 = h(this := performTransformation (h this));
            h2 = h1(this := (h1 this)\<lparr>t_cachedConcatenatedMatrix :=
                     setToMatrix (t_matrix (h1 this)) (t_cachedConcatenatedMatrix (h1 this))\<rparr>)
        in case t_parent (h2 this) of
             None \<Rightarrow>
               (case dirty_set 0 this False h2 of
                  Inl err \<Rightarrow> Inl err
                | Inr h4 \<Rightarrow> Inr (h4, t_cachedConcatenatedMatrix (h4 this)))
           | Some p \<Rightarrow>
               (case getConcatenatedMatrix n p h2 of
                  Inl err \<Rightarrow> Inl err
                | Inr (h3, pm) \<Rightarrow>
                    let h3' = h3(this := (h3 this)\<lparr>t_cachedConcatenatedMatrix :=
                                 multiplyMatrix pm (t_cachedConcatenatedMatrix (h3 this))\<rparr>)
                    in (case dirty_set 0 this False h3' of
                          Inl err \<Rightarrow> Inl err
                        | Inr h4 \<Rightarrow> Inr (h4, t_cachedConcatenatedMatrix (h4 this))))
      else Inr (h, t_cachedConcatenatedMatrix (h this)))"

text \<open>\<open>checkAncestor\<close>: the body of the source is commented out, what is left is
  \<open>return false\<close>.\<close>

definition checkAncestor :: "heap \<Rightarrow> nat \<Rightarrow> nat option \<Rightarrow> bool" where
  "checkAncestor h this transform = False"

text \<open>The setter of \<open>parent\<close>; \<open>None\<close> is \<open>null\<close>.\<close>

definition parent_set :: "nat \<Rightarrow> nat \<Rightarrow> nat option \<Rightarrow> heap \<Rightarrow> error + heap" where
  "parent_set fuel this val h =
     (let h1 = (case val of
                  Some v \<Rightarrow> h(v := (h v)\<lparr>t_children := t_children (h v) @ [this]\<rparr>)
                | None \<Rightarrow> h)
      in if \<not> checkAncestor h1 this val
         then dirty_set fuel this True (h1(this := (h1 this)\<lparr>t_parent := val\<rparr>))
         else Inr h1)"

text \<open>A heap in which every reference holds a transform as \<open>new Transform()\<close> leaves
  it.\<close>

definition fresh_heap :: heap where
  "fresh_heap = (\<lambda>_. new_Transform)"

subsection \<open>Chains of transforms and what the cascade and the caches should do\<close>

text \<open>\<open>mark S h\<close> is the heap \<open>h\<close> with the dirty flag set on the transforms in \<open>S\<close>.\<close>

definition mark :: "nat set \<Rightarrow> heap \<Rightarrow> heap" where
  "mark S h = (\<lambda>u. if u \<in> S then (h u)\<lparr>t_dirty := True\<rparr> else h u)"

text \<open>The matrix that \<open>_performTransformation\<close> computes from the current position,
  scale, rotation, origin and pivot of a transform.\<close>

definition local_matrix :: "Transform \<Rightarrow> Matrix" where
  "local_matrix t = t_matrix (performTransformation t)"





text \<open>The children lists contain no cycle (other than a transform listed as its own
  child, which the cascade skips): some rank falls along every other edge.\<close>

definition acyclic_children :: "(nat \<Rightarrow> nat) \<Rightarrow> heap \<Rightarrow> bool" where
  "acyclic_children rk h \<longleftrightarrow> (\<forall>u. \<forall>c \<in> set (t_children (h u)). c \<noteq> u \<longrightarrow> rk c < rk u)"

text \<open>\<open>child_edge h u c\<close>: \<open>c\<close> is in the children list of \<open>u\<close> and is not \<open>u\<close> itself, which
  is when the cascade goes from \<open>u\<close> to \<open>c\<close>. \<open>same_children\<close>: two heaps have the same
  children lists.\<close>

definition child_edge :: "heap \<Rightarrow> nat \<Rightarrow> nat \<Rightarrow> bool" where
  "child_edge h u c \<longleftrightarrow> c \<in> set (t_children (h u)) \<and> c \<noteq> u"

definition same_children :: "heap \<Rightarrow> heap \<Rightarrow> bool" where
  "same_children h h' \<longleftrightarrow> (\<forall>u. t_children (h' u) = t_children (h u))"










text \<open>A new transform 1 that has been given the new transform 0 as parent twice.\<close>

definition twice_parented_heap :: heap where
  "twice_parented_heap =
     fresh_heap(0 := new_Transform\<lparr>t_children := [1, 1]\<rparr>,
                1 := new_Transform\<lparr>t_parent := Some 0\<rparr>)"

section \<open>Kiwi.Camera on Kiwi.Transformable\<close>

text \<open>
  \<open>Transformable\<close> has a \<open>_dirty\<close> flag of its own, with a plain getter and setter, and
  a transform, which its constructor creates with \<open>new Kiwi.Geom.Transform(this)\<close>: the
  constructor of the class \<open>Transform\<close> takes no argument, so the one given is dropped.
  The camera adds a size and two scratch matrices.
\<close>

record Camera =
  c_dirty :: bool
  c_transform :: nat
  c_width :: real
  c_height :: real
  c_fitToStage :: bool
  c_normal :: Matrix
  c_inverted :: Matrix

text \<open>
  \<open>_updatedStageSize\<close> of the camera that extends \<open>Transformable\<close>. Its last statement is
  \<open>this.transform.setPivotPoint(-width / 2, -height / 2)\<close>, and the class \<open>Transform\<close> has
  no method \<open>setPivotPoint\<close>: the call of \<open>undefined\<close> is a \<open>TypeError\<close>, raised after
  the width, the height and the origin have been written. So the method never returns;
  its result here is the error and the state in which it is raised (\<open>None\<close> when already
  the cascade of \<open>setOrigin\<close> has not come back).
\<close>

definition updatedStageSize ::
  "nat \<Rightarrow> real \<Rightarrow> real \<Rightarrow> heap \<times> Camera \<Rightarrow> error \<times> (heap \<times> Camera) option" where
  "updatedStageSize fuel width height s =
     (let cam1 = (snd s)\<lparr>c_width := width\<rparr>;
          cam2 = cam1\<lparr>c_height := height\<rparr>
      in case setOrigin fuel (c_transform cam2) (- width / 2) (- height / 2) (fst s) of
           Inl err \<Rightarrow> (err, None)
         | Inr h1 \<Rightarrow> (TypeError, Some (h1, cam2)))"

text \<open>The constructor: \<open>super()\<close> creates the transform (at the reference \<open>addr\<close>) with
  \<open>_dirty = true\<close>, then come the position, the size and \<open>_updatedStageSize\<close>, whose error
  ends the constructor: the registration for resize events after it is not reached.\<close>

definition new_Camera ::
  "nat \<Rightarrow> nat \<Rightarrow> real \<Rightarrow> real \<Rightarrow> real \<Rightarrow> real \<Rightarrow> heap \<Rightarrow> error \<times> (heap \<times> Camera) option" where
  "new_Camera fuel addr x y width height h =
     (let h0 = h(addr := new_Transform);
          cam0 = \<lparr>c_dirty = True, c_transform = addr, c_width = width, c_height = height,
                  c_fitToStage = True, c_normal = new_Matrix, c_inverted = new_Matrix\<rparr>
      in case setXY fuel addr x y h0 of
           Inl err \<Rightarrow> (err, None)
         | Inr h1 \<Rightarrow> updatedStageSize fuel width height (h1, cam0))"

definition Camera_clean :: "nat \<Rightarrow> heap \<times> Camera \<Rightarrow> error + (heap \<times> Camera)" where
  "Camera_clean fuel s =
     (case getConcatenatedMatrix fuel (c_transform (snd s)) (fst s) of
        Inl err \<Rightarrow> Inl err
      | Inr (h1, cm) \<Rightarrow>
          let cam1 = (snd s)\<lparr>c_normal := setToMatrix cm (c_normal (snd s))\<rparr>
          in (case invert (setToMatrix (c_normal cam1) (c_inverted cam1)) of
                Inl err \<Rightarrow> Inl err
              | Inr im \<Rightarrow> Inr (h1, cam1\<lparr>c_inverted := im, c_dirty := False\<rparr>)))"

text \<open>The two conversions. With \<open>copy\<close> the result is a new point, without it the
  caller's point is overwritten and returned; the value is the second component.\<close>

definition transformStageToWorld ::
  "nat \<Rightarrow> Point \<Rightarrow> bool \<Rightarrow> heap \<times> Camera \<Rightarrow> error + ((heap \<times> Camera) \<times> Point)" where
  "transformStageToWorld fuel pt copy s =
     (case (if c_dirty (snd s) then Camera_clean fuel s else Inr s) of
        Inl err \<Rightarrow> Inl err
      | Inr s1 \<Rightarrow>
          if copy then Inr (s1, transformPoint (c_inverted (snd s1)) pt)
          else Inr (s1, transformPointInPlace (c_inverted (snd s1)) pt))"

definition transformWorldToStage ::
  "nat \<Rightarrow> Point \<Rightarrow> bool \<Rightarrow> heap \<times> Camera \<Rightarrow> error + ((heap \<times> Camera) \<times> Point)" where
  "transformWorldToStage fuel pt copy s =
     (case (if c_dirty (snd s) then Camera_clean fuel s else Inr s) of
        Inl err \<Rightarrow> Inl err
      | Inr s1 \<Rightarrow>
          if copy then Inr (s1, transformPoint (c_normal (snd s1)) pt)
          else Inr (s1, transformPointInPlace (c_normal (snd s1)) pt))"

text \<open>
  States of one camera of this class on a stage of 800 by 600, its transform at
  reference 0 and at position \<open>(0, 0)\<close>, origin and pivot at \<open>(-400, -300)\<close>: before its
  first conversion and after it. And the state in which \<open>new Camera(game, id, name, 0, 0,
  800, 600)\<close> raises its error.
\<close>

definition camera_at_origin :: "heap \<times> Camera" where
  "camera_at_origin =
     (fresh_heap(0 := new_Transform\<lparr>t_origin := new_Point (- 400) (- 300),
                                     t_pivotPoint := new_Point (- 400) (- 300)\<rparr>),
      \<lparr>c_dirty = True, c_transform = 0, c_width = 800, c_height = 600,
       c_fitToStage = True, c_normal = new_Matrix, c_inverted = new_Matrix\<rparr>)"

definition camera_cleaned :: "heap \<times> Camera" where
  "camera_cleaned =
     (fresh_heap(0 := new_Transform\<lparr>t_dirty := False, t_origin := new_Point (- 400) (- 300),
                                     t_pivotPoint := new_Point (- 400) (- 300)\<rparr>),
      \<lparr>c_dirty = False, c_transform = 0, c_width = 800, c_height = 600,
       c_fitToStage = True, c_normal = new_Matrix, c_inverted = new_Matrix\<rparr>)"

definition camera_thrown :: "heap \<times> Camera" where
  "camera_thrown =
     (fresh_heap(0 := new_Transform\<lparr>t_origin := new_Point (- 400) (- 300)\<rparr>),
      \<lparr>c_dirty = True, c_transform = 0, c_width = 800, c_height = 600,
       c_fitToStage = True, c_normal = new_Matrix, c_inverted = new_Matrix\<rparr>)"

section \<open>Kiwi.Camera of src/core/Camera.ts\<close>

text \<open>
  The camera that does not extend \<open>Transformable\<close>: it has no dirty flag and no cached
  pair of matrices. \<open>_scratchMatrix\<close> is declared without initialiser and assigned
  nowhere in the class: \<open>None\<close> is \<open>undefined\<close>.
\<close>

record CoreCamera =
  k_width :: real
  k_height :: real
  k_fitToStage :: bool
  k_transform :: nat
  k_scratchMatrix :: "Matrix option"

text \<open>\<open>_updatedStageSize\<close> writes into the points that the getters \<open>origin\<close> and
  \<open>pivotPoint\<close> of the transform return.\<close>

definition updatedStageSize_core :: "real \<Rightarrow> real \<Rightarrow> heap \<times> CoreCamera \<Rightarrow> heap \<times> CoreCamera" where
  "updatedStageSize_core width height s =
     (let cam1 = (snd s)\<lparr>k_width := width\<rparr>;
          cam2 = cam1\<lparr>k_height := height\<rparr>;
          h1 = origin_setTo (k_transform cam2) (width / 2) (height / 2) (fst s);
          h2 = pivotPoint_setTo (k_transform cam2) (width / 2) (height / 2) h1
      in (h2, cam2))"

text \<open>The constructor; the new transform is put at the reference \<open>addr\<close>.\<close>

definition new_Camera_core ::
  "nat \<Rightarrow> real \<Rightarrow> real \<Rightarrow> real \<Rightarrow> real \<Rightarrow> heap \<Rightarrow> heap \<times> CoreCamera" where
  "new_Camera_core addr x y width height h =
     (let cam0 = \<lparr>k_width = width, k_height = height, k_fitToStage = True,
                  k_transform = addr, k_scratchMatrix = None\<rparr>;
          h0 = h(addr := new_Transform);
          h1 = xy_setTo addr x y h0
      in updatedStageSize_core width height (h1, cam0))"

text \<open>
  States of one such camera on a stage of 800 by 600, its transform at reference 0: as
  the constructor leaves it; the heap after \<open>cam.transform.scaleX = 2\<close>; the heap after
  the concatenated matrix has then been read; and the camera after a resize to 1024 by
  768 has followed.
\<close>

definition core_camera :: "heap \<times> CoreCamera" where
  "core_camera =
     (fresh_heap(0 := new_Transform\<lparr>t_origin := new_Point 400 300,
                                     t_pivotPoint := new_Point 400 300\<rparr>),
      \<lparr>k_width = 800, k_height = 600, k_fitToStage = True, k_transform = 0,
       k_scratchMatrix = None\<rparr>)"

definition core_scaled :: heap where
  "core_scaled =
     fresh_heap(0 := new_Transform\<lparr>t_origin := new_Point 400 300,
                                    t_pivotPoint := new_Point 400 300,
                                    t_scale := new_Point 2 1\<rparr>)"

definition core_scaled_read :: heap where
  "core_scaled_read =
     fresh_heap(0 := new_Transform\<lparr>t_dirty := False, t_origin := new_Point 400 300,
                                    t_pivotPoint := new_Point 400 300,
                                    t_scale := new_Point 2 1,
                                    t_matrix := new_Matrix\<lparr>m_a := 2, m_tx := - 400\<rparr>,
                                    t_cachedConcatenatedMatrix := new_Matrix\<lparr>m_a := 2, m_tx := - 400\<rparr>\<rparr>)"

definition core_resized :: "heap \<times> CoreCamera" where
  "core_resized =
     (fresh_heap(0 := new_Transform\<lparr>t_dirty := False, t_origin := new_Point 512 384,
                                     t_pivotPoint := new_Point 512 384,
                                     t_scale := new_Point 2 1,
                                     t_matrix := new_Matrix\<lparr>m_a := 2, m_tx := - 400\<rparr>,
                                     t_cachedConcatenatedMatrix := new_Matrix\<lparr>m_a := 2, m_tx := - 400\<rparr>\<rparr>),
      \<lparr>k_width = 1024, k_height = 768, k_fitToStage = True, k_transform = 0,
       k_scratchMatrix = None\<rparr>)"

section \<open>Kiwi.Components.Box2\<close>

text \<open>\<open>_invertedTransformMatrix\<close> has no initialiser: it is \<open>undefined\<close> (\<open>None\<close>) until
  \<open>clean\<close> has run. \<open>b_owner\<close> is the reference of \<open>owner.transform\<close>.\<close>

record Box2 =
  b_dirty :: bool
  b_offset :: Point
  b_dimensions :: Point
  b_invertedTransformMatrix :: "Matrix option"
  b_owner :: nat

definition new_Box2 :: "nat \<Rightarrow> real \<Rightarrow> real \<Rightarrow> real \<Rightarrow> real \<Rightarrow> Box2" where
  "new_Box2 owner offsetX offsetY width height =
     \<lparr>b_dirty = True, b_offset = new_Point offsetX offsetY,
      b_dimensions = new_Point width height, b_invertedTransformMatrix = None,
      b_owner = owner\<rparr>"

definition Box2_clean :: "nat \<Rightarrow> heap \<times> Box2 \<Rightarrow> error + (heap \<times> Box2)" where
  "Box2_clean fuel s =
     (case getConcatenatedMatrix fuel (b_owner (snd s)) (fst s) of
        Inl err \<Rightarrow> Inl err
      | Inr (h1, cm) \<Rightarrow>
          (case invertCopy cm of
             Inl err \<Rightarrow> Inl err
           | Inr im \<Rightarrow> Inr (h1, (snd s)\<lparr>b_invertedTransformMatrix := Some im\<rparr>)))"

definition check :: "nat \<Rightarrow> Point \<Rightarrow> heap \<times> Box2 \<Rightarrow> error + ((heap \<times> Box2) \<times> bool)" where
  "check fuel pt s =
     (case (if b_dirty (snd s) then Box2_clean fuel s else Inr s) of
        Inl err \<Rightarrow> Inl err
      | Inr s1 \<Rightarrow>
          (case b_invertedTransformMatrix (snd s1) of
             None \<Rightarrow> Inl TypeError
           | Some im \<Rightarrow>
               let localPt = transformPoint im pt
               in Inr (s1, pt_x localPt > pt_x (b_offset (snd s1))
                         \<and> pt_x localPt < pt_x (b_dimensions (snd s1))
                         \<and> pt_y localPt > pt_y (b_offset (snd s1))
                         \<and> pt_y localPt < pt_y (b_dimensions (snd s1)))))"

text \<open>Heaps for the hit-box scenarios: the owner's transform (reference 0) at
  \<open>(100, 100)\<close>, the same after its concatenated matrix has been read, and an owner at the
  origin after the read.\<close>

definition box_owner_100 :: heap where
  "box_owner_100 = fresh_heap(0 := new_Transform\<lparr>t_xy := new_Point 100 100\<rparr>)"

definition box_owner_100_read :: heap where
  "box_owner_100_read =
     fresh_heap(0 := new_Transform\<lparr>t_dirty := False, t_xy := new_Point 100 100,
                      t_matrix := new_Matrix\<lparr>m_tx := 100, m_ty := 100\<rparr>,
                      t_cachedConcatenatedMatrix := new_Matrix\<lparr>m_tx := 100, m_ty := 100\<rparr>\<rparr>)"

definition box_owner_0_read :: heap where
  "box_owner_0_read = fresh_heap(0 := new_Transform\<lparr>t_dirty := False\<rparr>)"

section \<open>Texture atlas cells and the batch of TextureAtlasRenderer\<close>

record Cell =
  cell_x :: real
  cell_y :: real
  cell_w :: real
  cell_h :: real

text \<open>Reading \<open>a[i]\<close> from a JavaScript array: \<open>None\<close> is \<open>undefined\<close>.\<close>

definition array_get :: "'a list \<Rightarrow> int \<Rightarrow> 'a option" where
  "array_get xs i = (if 0 \<le> i \<and> i < int (length xs) then Some (xs ! nat i) else None)"

text \<open>Of an entity, what \<open>addToBatch\<close> reads: \<open>alpha\<close>, the reference of its transform,
  the cells of its atlas and \<open>cellIndex\<close>.\<close>

record Entity =
  e_alpha :: real
  e_transform :: nat
  e_cells :: "Cell list"
  e_cellIndex :: int

text \<open>Of the renderer, the items of the vertex buffer and the four scratch points.\<close>

record TextureAtlasRenderer =
  r_items :: "real list"
  r_pt1 :: Point
  r_pt2 :: Point
  r_pt3 :: Point
  r_pt4 :: Point

definition addToBatch ::
  "nat \<Rightarrow> Entity \<Rightarrow> heap \<times> TextureAtlasRenderer \<Rightarrow> error + (heap \<times> TextureAtlasRenderer)" where
  "addToBatch fuel entity s =
     (if e_alpha entity \<le> 0 then Inr s
      else
        case getConcatenatedMatrix fuel (e_transform entity) (fst s) of
          Inl err \<Rightarrow> Inl err
        | Inr (h1, m) \<Rightarrow>
            (case array_get (e_cells entity) (e_cellIndex entity) of
               None \<Rightarrow> Inl TypeError
             | Some cell \<Rightarrow>
                 let r0 = snd s;
                     r1 = r0\<lparr>r_pt1 := Point_setTo 0 0 (r_pt1 r0)\<rparr>;
                     r2 = r1\<lparr>r_pt2 := Point_setTo (cell_w cell) 0 (r_pt2 r1)\<rparr>;
                     r3 = r2\<lparr>r_pt3 := Point_setTo (cell_w cell) (cell_h cell) (r_pt3 r2)\<rparr>;
                     r4 = r3\<lparr>r_pt4 := Point_setTo 0 (cell_h cell) (r_pt4 r3)\<rparr>;
                     r5 = r4\<lparr>r_pt1 := transformPointInPlace m (r_pt1 r4)\<rparr>;
                     r6 = r5\<lparr>r_pt2 := transformPointInPlace m (r_pt2 r5)\<rparr>;
                     r7 = r6\<lparr>r_pt3 := transformPointInPlace m (r_pt3 r6)\<rparr>;
                     r8 = r7\<lparr>r_pt4 := transformPointInPlace m (r_pt4 r7)\<rparr>
                 in Inr (h1, r8\<lparr>r_items := r_items r8 @
                      [pt_x (r_pt1 r8), pt_y (r_pt1 r8), cell_x cell, cell_y cell, e_alpha entity,
                       pt_x (r_pt2 r8), pt_y (r_pt2 r8), cell_x cell + cell_w cell, cell_y cell, e_alpha entity,
                       pt_x (r_pt3 r8), pt_y (r_pt3 r8), cell_x cell + cell_w cell, cell_y cell + cell_h cell, e_alpha entity,
                       pt_x (r_pt4 r8), pt_y (r_pt4 r8), cell_x cell, cell_y cell + cell_h cell, e_alpha entity]\<rparr>)))"

definition concatBatch :: "real list \<Rightarrow> TextureAtlasRenderer \<Rightarrow> TextureAtlasRenderer" where
  "concatBatch vertexItems r = r\<lparr>r_items := r_items r @ vertexItems\<rparr>"

section \<open>TileMapLayerDynamicOrthogonal\<close>

record TileType =
  tt_cellIndex :: int
  tt_offset :: Point

text \<open>
  The fields of the layer that \<open>_calculateBoundaries\<close> and \<open>renderGL\<close> use. \<open>l_stage_width\<close>
  and \<open>l_stage_height\<close> are \<open>game.stage.width\<close> and \<open>game.stage.height\<close>, \<open>l_tileTypes\<close> is
  \<open>tilemap.tileTypes\<close>, \<open>l_cells\<close> is \<open>atlas.cells\<close>. \<open>_data2\<close> is the object keyed by the
  string \<open>x|y\<close>; its keys are modelled as the pair of numbers. \<open>_temptype\<close> is \<open>None\<close> when
  it is \<open>undefined\<close>.
\<close>

record TileMapLayer =
  l_transform :: nat
  l_alpha :: real
  l_tileWidth :: real
  l_tileHeight :: real
  l_width :: real
  l_height :: real
  l_offset :: Point
  l_data2 :: "real \<times> real \<Rightarrow> int option"
  l_tileTypes :: "TileType list"
  l_cells :: "Cell list"
  l_stage_width :: real
  l_stage_height :: real
  l_corner1 :: Point
  l_corner2 :: Point
  l_corner3 :: Point
  l_corner4 :: Point
  l_startX :: real
  l_startY :: real
  l_maxX :: real
  l_maxY :: real
  l_temptype :: "TileType option"

text \<open>
  Modelled from the spec: \<open>Kiwi.Utils.GameMath.clamp\<close> is not in the source. The spec has
  the bounds clamped to the layer's valid coordinate range; the calls pass the value,
  then the upper end, then the lower end of that range.
\<close>

definition clamp :: "real \<Rightarrow> real \<Rightarrow> real \<Rightarrow> real" where
  "clamp input mx mn = max mn (min mx input)"

definition getTileFromXY :: "TileMapLayer \<Rightarrow> real \<Rightarrow> real \<Rightarrow> TileType option" where
  "getTileFromXY layer x y =
     (case l_data2 layer (x, y) of
        None \<Rightarrow> None
      | Some e \<Rightarrow> array_get (l_tileTypes layer) e)"

text \<open>One in-place conversion of a corner by the camera, on the state of heap, camera
  and layer.\<close>

definition corner_to_world ::
  "nat \<Rightarrow> (TileMapLayer \<Rightarrow> Point) \<Rightarrow> (Point \<Rightarrow> TileMapLayer \<Rightarrow> TileMapLayer) \<Rightarrow>
   (heap \<times> Camera) \<times> TileMapLayer \<Rightarrow> error + ((heap \<times> Camera) \<times> TileMapLayer)" where
  "corner_to_world fuel get put s =
     (case transformStageToWorld fuel (get (snd s)) False (fst s) of
        Inl err \<Rightarrow> Inl err
      | Inr (s1, pt) \<Rightarrow> Inr (s1, put pt (snd s)))"

text \<open>\<open>_calculateBoundaries\<close>, in the steps that the comments of the source name.
  Initialise corners:\<close>

definition init_corners :: "TileMapLayer \<Rightarrow> TileMapLayer" where
  "init_corners l0 =
     (let l1 = l0\<lparr>l_corner1 := Point_setTo 0 0 (l_corner1 l0)\<rparr>;
          l2 = l1\<lparr>l_corner2 := Point_setTo (l_stage_width l1) 0 (l_corner2 l1)\<rparr>;
          l3 = l2\<lparr>l_corner3 := Point_setTo (l_stage_width l2) (l_stage_height l2) (l_corner3 l2)\<rparr>
      in l3\<lparr>l_corner4 := Point_setTo 0 (l_stage_height l3) (l_corner4 l3)\<rparr>)"

text \<open>Transform corners by camera:\<close>

definition corners_to_world ::
  "nat \<Rightarrow> (heap \<times> Camera) \<times> TileMapLayer \<Rightarrow> error + ((heap \<times> Camera) \<times> TileMapLayer)" where
  "corners_to_world fuel s =
     (case corner_to_world fuel l_corner1 (\<lambda>p l. l\<lparr>l_corner1 := p\<rparr>) s of
        Inl err \<Rightarrow> Inl err
      | Inr s1 \<Rightarrow>
     (case corner_to_world fuel l_corner2 (\<lambda>p l. l\<lparr>l_corner2 := p\<rparr>) s1 of
        Inl err \<Rightarrow> Inl err
      | Inr s2 \<Rightarrow>
     (case corner_to_world fuel l_corner3 (\<lambda>p l. l\<lparr>l_corner3 := p\<rparr>) s2 of
        Inl err \<Rightarrow> Inl err
      | Inr s3 \<Rightarrow> corner_to_world fuel l_corner4 (\<lambda>p l. l\<lparr>l_corner4 := p\<rparr>) s3)))"

text \<open>Transform corners by object (\<open>m\<close> is the inverted clone of the layer's matrix):\<close>

definition corners_to_layer :: "Matrix \<Rightarrow> TileMapLayer \<Rightarrow> TileMapLayer" where
  "corners_to_layer m l4 =
     (let l5 = l4\<lparr>l_corner1 := transformPointInPlace m (l_corner1 l4)\<rparr>;
          l6 = l5\<lparr>l_corner2 := transformPointInPlace m (l_corner2 l5)\<rparr>;
          l7 = l6\<lparr>l_corner3 := transformPointInPlace m (l_corner3 l6)\<rparr>
      in l7\<lparr>l_corner4 := transformPointInPlace m (l_corner4 l7)\<rparr>)"

text \<open>Find min/max values in X and Y:\<close>

definition find_min_max :: "TileMapLayer \<Rightarrow> TileMapLayer" where
  "find_min_max l8 =
     (let l9 = l8\<lparr>l_startX := min (min (min (pt_x (l_corner1 l8)) (pt_x (l_corner2 l8)))
                                      (pt_x (l_corner3 l8))) (pt_x (l_corner4 l8))\<rparr>;
          l10 = l9\<lparr>l_startY := min (min (min (pt_y (l_corner1 l9)) (pt_y (l_corner2 l9)))
                                      (pt_y (l_corner3 l9))) (pt_y (l_corner4 l9))\<rparr>;
          l11 = l10\<lparr>l_maxX := max (max (max (pt_x (l_corner1 l10)) (pt_x (l_corner2 l10)))
                                      (pt_x (l_corner3 l10))) (pt_x (l_corner4 l10))\<rparr>
      in l11\<lparr>l_maxY := max (max (max (pt_y (l_corner1 l11)) (pt_y (l_corner2 l11)))
                                      (pt_y (l_corner3 l11))) (pt_y (l_corner4 l11))\<rparr>)"

text \<open>Convert to tile units (a tile width or height of 0 divides by zero):\<close>

definition to_tile_units :: "TileMapLayer \<Rightarrow> error + TileMapLayer" where
  "to_tile_units l12 =
     (if l_tileWidth l12 = 0 \<or> l_tileHeight l12 = 0 then Inl NonFinite
      else
        let l13 = l12\<lparr>l_startX := l_startX l12 / l_tileWidth l12\<rparr>;
            l14 = l13\<lparr>l_startY := l_startY l13 / l_tileHeight l13\<rparr>;
            l15 = l14\<lparr>l_maxX := l_maxX l14 / l_tileWidth l14\<rparr>
        in Inr (l15\<lparr>l_maxY := l_maxY l15 / l_tileHeight l15\<rparr>))"

text \<open>Truncate units:\<close>

definition truncate_units :: "TileMapLayer \<Rightarrow> TileMapLayer" where
  "truncate_units l16 =
     (let l17 = l16\<lparr>l_startX := of_int \<lfloor>l_startX l16\<rfloor>\<rparr>;
          l18 = l17\<lparr>l_startY := of_int \<lfloor>l_startY l17\<rfloor>\<rparr>;
          l19 = l18\<lparr>l_maxX := of_int \<lceil>l_maxX l18\<rceil>\<rparr>
      in l19\<lparr>l_maxY := of_int \<lceil>l_maxY l19\<rceil>\<rparr>)"

text \<open>Clamp values to tilemap range:\<close>

definition clamp_to_range :: "TileMapLayer \<Rightarrow> TileMapLayer" where
  "clamp_to_range l20 =
     (let l21 = l20\<lparr>l_startX := clamp (l_startX l20)
                       (l_width l20 + pt_x (l_offset l20)) (pt_x (l_offset l20))\<rparr>;
          l22 = l21\<lparr>l_startY := clamp (l_startY l21)
                       (l_height l21 + pt_y (l_offset l21)) (pt_y (l_offset l21))\<rparr>;
          l23 = l22\<lparr>l_maxX := clamp (l_maxX l22)
                       (l_width l22 + pt_x (l_offset l22)) (pt_x (l_offset l22))\<rparr>
      in l23\<lparr>l_maxY := clamp (l_maxY l23)
                       (l_height l23 + pt_y (l_offset l23)) (pt_y (l_offset l23))\<rparr>)"

definition calculateBoundaries ::
  "nat \<Rightarrow> Matrix \<Rightarrow> (heap \<times> Camera) \<times> TileMapLayer \<Rightarrow> error + ((heap \<times> Camera) \<times> TileMapLayer)" where
  "calculateBoundaries fuel matrix s =
     (case corners_to_world fuel (fst s, init_corners (snd s)) of
        Inl err \<Rightarrow> Inl err
      | Inr s4 \<Rightarrow>
          (case invert (clone matrix) of
             Inl err \<Rightarrow> Inl err
           | Inr m \<Rightarrow>
               (case to_tile_units (find_min_max (corners_to_layer m (snd s4))) of
                  Inl err \<Rightarrow> Inl err
                | Inr l16 \<Rightarrow> Inr (fst s4, clamp_to_range (truncate_units l16)))))"

text \<open>
  The body of the inner loop of \<open>renderGL\<close> for the tile at \<open>(x, y)\<close>: it reads the tile
  type (a missing one is \<open>undefined\<close>, whose \<open>cellIndex\<close> cannot be read), skips the type
  without a cell, and otherwise appends the twenty numbers of one quad to \<open>vertexItems\<close>.
\<close>

definition renderGL_tile ::
  "Matrix \<Rightarrow> real \<Rightarrow> real \<Rightarrow> TileMapLayer \<times> real list \<Rightarrow> error + (TileMapLayer \<times> real list)" where
  "renderGL_tile m x y s =
     (let l1 = (fst s)\<lparr>l_temptype := getTileFromXY (fst s) x y\<rparr>
      in case l_temptype l1 of
           None \<Rightarrow> Inl TypeError
         | Some tt \<Rightarrow>
             if tt_cellIndex tt = - 1 then Inr (l1, snd s)
             else
               (case array_get (l_cells l1) (tt_cellIndex tt) of
                  None \<Rightarrow> Inl TypeError
                | Some cell \<Rightarrow>
                    let tx = x * l_tileWidth l1 + pt_x (tt_offset tt);
                        ty = y * l_tileHeight l1 + pt_y (tt_offset tt);
                        l2 = l1\<lparr>l_corner1 := Point_setTo tx ty (l_corner1 l1)\<rparr>;
                        l3 = l2\<lparr>l_corner2 := Point_setTo (tx + cell_w cell) ty (l_corner2 l2)\<rparr>;
                        l4 = l3\<lparr>l_corner3 := Point_setTo (tx + cell_w cell) (ty + cell_h cell) (l_corner3 l3)\<rparr>;
                        l5 = l4\<lparr>l_corner4 := Point_setTo tx (ty + cell_h cell) (l_corner4 l4)\<rparr>;
                        l6 = l5\<lparr>l_corner1 := transformPointInPlace m (l_corner1 l5)\<rparr>;
                        l7 = l6\<lparr>l_corner2 := transformPointInPlace m (l_corner2 l6)\<rparr>;
                        l8 = l7\<lparr>l_corner3 := transformPointInPlace m (l_corner3 l7)\<rparr>;
                        l9 = l8\<lparr>l_corner4 := transformPointInPlace m (l_corner4 l8)\<rparr>
                    in Inr (l9, snd s @
                         [pt_x (l_corner1 l9), pt_y (l_corner1 l9), cell_x cell, cell_y cell, l_alpha l9,
                          pt_x (l_corner2 l9), pt_y (l_corner2 l9), cell_x cell + cell_w cell - 1, cell_y cell, l_alpha l9,
                          pt_x (l_corner3 l9), pt_y (l_corner3 l9), cell_x cell + cell_w cell - 1, cell_y cell + cell_h cell - 1, l_alpha l9,
                          pt_x (l_corner4 l9), pt_y (l_corner4 l9), cell_x cell, cell_y cell + cell_h cell - 1, l_alpha l9])))"

text \<open>The inner loop \<open>for (var x = ...; x < this._maxX; x++)\<close>, from the current \<open>x\<close>.\<close>

function renderGL_row ::
  "Matrix \<Rightarrow> real \<Rightarrow> real \<Rightarrow> TileMapLayer \<times> real list \<Rightarrow> error + (TileMapLayer \<times> real list)" where
  "renderGL_row m y x s =
     (if x < l_maxX (fst s)
      then (case renderGL_tile m x y s of
              Inl err \<Rightarrow> Inl err
            | Inr s1 \<Rightarrow> renderGL_row m y (x + 1) s1)
      else Inr s)"
  by pat_completeness auto
termination
proof (relation "measure (\<lambda>(m, y, x, s). nat \<lceil>l_maxX (fst s) - x\<rceil>)")
  show "wf (measure (\<lambda>(m, y, x, s). nat \<lceil>l_maxX (fst s) - x\<rceil>))"
    by simp
next
  fix m :: Matrix and y x :: real and s s1 :: "TileMapLayer \<times> real list"
  assume lt: "x < l_maxX (fst s)" and step: "renderGL_tile m x y s = Inr s1"
  have keep: "l_maxX (fst s1) = l_maxX (fst s)"
    using step
    by (auto simp: renderGL_tile_def Let_def split: option.splits if_splits)
  have "l_maxX (fst s) - (x + 1) = (l_maxX (fst s) - x) - 1"
    by simp
  then have "\<lceil>l_maxX (fst s) - (x + 1)\<rceil> = \<lceil>l_maxX (fst s) - x\<rceil> - 1"
    by (simp only: ceiling_diff_one)
  moreover have "0 < \<lceil>l_maxX (fst s) - x\<rceil>"
    using lt by simp
  ultimately show "((m, y, x + 1, s1), (m, y, x, s)) \<in> measure (\<lambda>(m, y, x, s). nat \<lceil>l_maxX (fst s) - x\<rceil>)"
    using keep by simp
qed

declare renderGL_row.simps [simp del]

lemma renderGL_tile_keeps:
  assumes "renderGL_tile m x y s = Inr s1"
  shows "l_maxX (fst s1) = l_maxX (fst s)" and "l_maxY (fst s1) = l_maxY (fst s)"
    and "l_startX (fst s1) = l_startX (fst s)"
  using assms
  by (auto simp: renderGL_tile_def Let_def split: option.splits if_splits)

lemma renderGL_row_keeps:
  "renderGL_row m y x s = Inr s1 \<Longrightarrow>
   l_maxX (fst s1) = l_maxX (fst s) \<and> l_maxY (fst s1) = l_maxY (fst s)
   \<and> l_startX (fst s1) = l_startX (fst s)"
proof (induction m y x s rule: renderGL_row.induct)
  case (1 m y x s)
  note unfold = renderGL_row.simps [of m y x s]
  show ?case
  proof (cases "x < l_maxX (fst s)")
    case False
    with "1.prems" unfold show ?thesis by simp
  next
    case True
    with "1.prems" unfold
    have run: "(case renderGL_tile m x y s of Inl err \<Rightarrow> Inl err
                | Inr s2 \<Rightarrow> renderGL_row m y (x + 1) s2) = Inr s1"
      by simp
    then obtain s2 where tile: "renderGL_tile m x y s = Inr s2"
      and rest: "renderGL_row m y (x + 1) s2 = Inr s1"
      by (cases "renderGL_tile m x y s") simp_all
    from "1.IH" [OF True tile rest] renderGL_tile_keeps [OF tile]
    show ?thesis by simp
  qed
qed

text \<open>The outer loop \<open>for (var y = ...; y < this._maxY; y++)\<close>; every row starts at the
  current \<open>_startX\<close>.\<close>

function renderGL_rows ::
  "Matrix \<Rightarrow> real \<Rightarrow> TileMapLayer \<times> real list \<Rightarrow> error + (TileMapLayer \<times> real list)" where
  "renderGL_rows m y s =
     (if y < l_maxY (fst s)
      then (case renderGL_row m y (l_startX (fst s)) s of
              Inl err \<Rightarrow> Inl err
            | Inr s1 \<Rightarrow> renderGL_rows m (y + 1) s1)
      else Inr s)"
  by pat_completeness auto
termination
proof (relation "measure (\<lambda>(m, y, s). nat \<lceil>l_maxY (fst s) - y\<rceil>)")
  show "wf (measure (\<lambda>(m, y, s). nat \<lceil>l_maxY (fst s) - y\<rceil>))"
    by simp
next
  fix m :: Matrix and y :: real and s s1 :: "TileMapLayer \<times> real list"
  assume lt: "y < l_maxY (fst s)" and step: "renderGL_row m y (l_startX (fst s)) s = Inr s1"
  have keep: "l_maxY (fst s1) = l_maxY (fst s)"
    using renderGL_row_keeps [OF step] by simp
  have "l_maxY (fst s) - (y + 1) = (l_maxY (fst s) - y) - 1"
    by simp
  then have "\<lceil>l_maxY (fst s) - (y + 1)\<rceil> = \<lceil>l_maxY (fst s) - y\<rceil> - 1"
    by (simp only: ceiling_diff_one)
  moreover have "0 < \<lceil>l_maxY (fst s) - y\<rceil>"
    using lt by simp
  ultimately show "((m, y + 1, s1), (m, y, s)) \<in> measure (\<lambda>(m, y, s). nat \<lceil>l_maxY (fst s) - y\<rceil>)"
    using keep by simp
qed

declare renderGL_rows.simps [simp del]

text \<open>\<open>renderGL\<close>: the layer's concatenated matrix, the boundaries, the two loops, and the
  items handed to the renderer.\<close>

definition renderGL ::
  "nat \<Rightarrow> ((heap \<times> Camera) \<times> TileMapLayer) \<times> TextureAtlasRenderer \<Rightarrow>
   error + (((heap \<times> Camera) \<times> TileMapLayer) \<times> TextureAtlasRenderer)" where
  "renderGL fuel s =
     (let layer = snd (fst s); h = fst (fst (fst s)); cam = snd (fst (fst s))
      in case getConcatenatedMatrix fuel (l_transform layer) h of
           Inl err \<Rightarrow> Inl err
         | Inr (h1, m) \<Rightarrow>
             (case calculateBoundaries fuel m ((h1, cam), layer) of
                Inl err \<Rightarrow> Inl err
              | Inr (s1, layer1) \<Rightarrow>
                  (case renderGL_rows m (l_startY layer1) (layer1, []) of
                     Inl err \<Rightarrow> Inl err
                   | Inr (layer2, vertexItems) \<Rightarrow>
                       Inr ((s1, layer2), concatBatch vertexItems (snd s)))))"

text \<open>
  The scenario of the visible range: tiles of 32 by 32, a layer of 100 by 100 tiles at
  offset \<open>(0, 0)\<close>, a stage of 800 by 600. \<open>scenario_dims\<close> puts these numbers into any
  layer, \<open>scenario_result\<close> is that layer with the corners and bounds that
  \<open>_calculateBoundaries\<close> is to leave. \<open>scenario_layer\<close> is one such layer in full, every
  cell of its grid holding tile type 1, whose atlas cell is cell 0; \<open>dense_data2\<close> is the
  content of \<open>_data2\<close> for a grid of \<open>w\<close> by \<open>h\<close> tiles of one type.
\<close>

definition dense_data2 :: "real \<Rightarrow> real \<Rightarrow> int \<Rightarrow> real \<times> real \<Rightarrow> int option" where
  "dense_data2 w h e =
     (\<lambda>(x, y). if x \<in> \<int> \<and> y \<in> \<int> \<and> 0 \<le> x \<and> x < w \<and> 0 \<le> y \<and> y < h then Some e else None)"

definition scenario_dims :: "TileMapLayer \<Rightarrow> TileMapLayer" where
  "scenario_dims L =
     L\<lparr>l_tileWidth := 32, l_tileHeight := 32, l_width := 100, l_height := 100,
       l_offset := new_Point 0 0, l_stage_width := 800, l_stage_height := 600\<rparr>"

definition scenario_result :: "TileMapLayer \<Rightarrow> TileMapLayer" where
  "scenario_result L =
     (scenario_dims L)\<lparr>l_corner1 := new_Point 0 0, l_corner2 := new_Point 800 0,
                       l_corner3 := new_Point 800 600, l_corner4 := new_Point 0 600,
                       l_startX := 0, l_startY := 0, l_maxX := 25, l_maxY := 19\<rparr>"

definition scenario_layer :: TileMapLayer where
  "scenario_layer =
     \<lparr>l_transform = 1, l_alpha = 1, l_tileWidth = 32, l_tileHeight = 32,
      l_width = 100, l_height = 100, l_offset = new_Point 0 0,
      l_data2 = dense_data2 100 100 1,
      l_tileTypes = [\<lparr>tt_cellIndex = - 1, tt_offset = new_Point 0 0\<rparr>,
                     \<lparr>tt_cellIndex = 0, tt_offset = new_Point 0 0\<rparr>],
      l_cells = [\<lparr>cell_x = 0, cell_y = 0, cell_w = 32, cell_h = 32\<rparr>],
      l_stage_width = 800, l_stage_height = 600,
      l_corner1 = new_Point 0 0, l_corner2 = new_Point 0 0,
      l_corner3 = new_Point 0 0, l_corner4 = new_Point 0 0,
      l_startX = 0, l_startY = 0, l_maxX = 0, l_maxY = 0, l_temptype = None\<rparr>"

definition scenario_bounds :: TileMapLayer where
  "scenario_bounds =
     scenario_layer\<lparr>l_corner1 := new_Point 0 0, l_corner2 := new_Point 800 0,
                    l_corner3 := new_Point 800 600, l_corner4 := new_Point 0 600,
                    l_startX := 0, l_startY := 0, l_maxX := 25, l_maxY := 19\<rparr>"

text \<open>
  A quad is twenty numbers, five for each vertex: \<open>x, y, u, v, alpha\<close>. \<open>quad_uv\<close> picks
  the texture coordinates of the four vertices (top left, top right, bottom right, bottom
  left). \<open>inset_uv\<close> are the coordinates of an atlas cell with the far edges moved in by
  one, \<open>full_uv\<close> those of the whole cell; \<open>inset_quads\<close> says of a list of quads that each
  has the inset coordinates of some cell of the atlas.
\<close>

definition quad_uv :: "real list \<Rightarrow> (real \<times> real) list" where
  "quad_uv q = [(q ! 2, q ! 3), (q ! 7, q ! 8), (q ! 12, q ! 13), (q ! 17, q ! 18)]"

definition inset_uv :: "Cell \<Rightarrow> (real \<times> real) list" where
  "inset_uv cell =
     [(cell_x cell, cell_y cell),
      (cell_x cell + cell_w cell - 1, cell_y cell),
      (cell_x cell + cell_w cell - 1, cell_y cell + cell_h cell - 1),
      (cell_x cell, cell_y cell + cell_h cell - 1)]"

definition full_uv :: "Cell \<Rightarrow> (real \<times> real) list" where
  "full_uv cell =
     [(cell_x cell, cell_y cell),
      (cell_x cell + cell_w cell, cell_y cell),
      (cell_x cell + cell_w cell, cell_y cell + cell_h cell),
      (cell_x cell, cell_y cell + cell_h cell)]"

definition inset_quads :: "Cell list \<Rightarrow> real list list \<Rightarrow> bool" where
  "inset_quads cells qs \<longleftrightarrow>
     (\<forall>q \<in> set qs. length q = 20 \<and> (\<exists>cell \<in> set cells. quad_uv q = inset_uv cell))"


text \<open>
  Small inputs for the two paths into the batch: an entity with full alpha on the one
  cell of its atlas, an empty renderer and the renderer after that entity has been
  added; a layer of two tiles in one row under the camera of the scenario, with its
  bounds, its state after \<open>renderGL\<close>, the two quads it emits, and the heap after the
  layer's transform (reference 1) has been read.
\<close>

definition sprite_cell :: Cell where
  "sprite_cell = \<lparr>cell_x = 0, cell_y = 0, cell_w = 32, cell_h = 32\<rparr>"

definition sprite :: Entity where
  "sprite = \<lparr>e_alpha = 1, e_transform = 0, e_cells = [sprite_cell], e_cellIndex = 0\<rparr>"

definition empty_renderer :: TextureAtlasRenderer where
  "empty_renderer =
     \<lparr>r_items = [], r_pt1 = new_Point 0 0, r_pt2 = new_Point 0 0,
      r_pt3 = new_Point 0 0, r_pt4 = new_Point 0 0\<rparr>"

definition sprite_batch :: TextureAtlasRenderer where
  "sprite_batch =
     \<lparr>r_items = [0, 0, 0, 0, 1,  32, 0, 32, 0, 1,  32, 32, 32, 32, 1,  0, 32, 0, 32, 1],
      r_pt1 = new_Point 0 0, r_pt2 = new_Point 32 0,
      r_pt3 = new_Point 32 32, r_pt4 = new_Point 0 32\<rparr>"

definition tiny_layer :: TileMapLayer where
  "tiny_layer =
     \<lparr>l_transform = 1, l_alpha = 1, l_tileWidth = 32, l_tileHeight = 32,
      l_width = 2, l_height = 1, l_offset = new_Point 0 0,
      l_data2 = dense_data2 2 1 1,
      l_tileTypes = [\<lparr>tt_cellIndex = - 1, tt_offset = new_Point 0 0\<rparr>,
                     \<lparr>tt_cellIndex = 0, tt_offset = new_Point 0 0\<rparr>],
      l_cells = [sprite_cell],
      l_stage_width = 800, l_stage_height = 600,
      l_corner1 = new_Point 0 0, l_corner2 = new_Point 0 0,
      l_corner3 = new_Point 0 0, l_corner4 = new_Point 0 0,
      l_startX = 0, l_startY = 0, l_maxX = 0, l_maxY = 0, l_temptype = None\<rparr>"

definition tiny_bounds :: TileMapLayer where
  "tiny_bounds =
     tiny_layer\<lparr>l_corner1 := new_Point 0 0, l_corner2 := new_Point 800 0,
                l_corner3 := new_Point 800 600, l_corner4 := new_Point 0 600,
                l_startX := 0, l_startY := 0, l_maxX := 2, l_maxY := 1\<rparr>"

definition tiny_rendered :: TileMapLayer where
  "tiny_rendered =
     tiny_bounds\<lparr>l_corner1 := new_Point 32 0, l_corner2 := new_Point 64 0,
                 l_corner3 := new_Point 64 32, l_corner4 := new_Point 32 32,
                 l_temptype := Some \<lparr>tt_cellIndex = 0, tt_offset = new_Point 0 0\<rparr>\<rparr>"

definition tiny_items :: "real list list" where
  "tiny_items =
     [[0, 0, 0, 0, 1,  32, 0, 31, 0, 1,  32, 32, 31, 31, 1,  0, 32, 0, 31, 1],
      [32, 0, 0, 0, 1,  64, 0, 31, 0, 1,  64, 32, 31, 31, 1,  32, 32, 0, 31, 1]]"

definition tiny_heap :: heap where
  "tiny_heap = (fst camera_cleaned)(1 := new_Transform\<lparr>t_dirty := False\<rparr>)"

section \<open>Matrix: object methods against values\<close>

lemma multiplyMatrix_obj_value:
  assumes "this < length s" "b < length s"
  shows "multiplyMatrix_obj s this b = (s @ [multiplyMatrix (s ! this) (s ! b)], length s)"
  using assms
  by (simp add: multiplyMatrix_obj_def alloc_Matrix_def multiplyMatrix_def Let_def nth_append
      list_update_append)

lemma setToMatrix_obj_value:
  assumes "this < length s" "m < length s"
  shows "setToMatrix_obj s this m = s[this := setToMatrix (s ! m) (s ! this)]"
proof (cases "m = this")
  case True
  then show ?thesis using assms
    by (simp add: setToMatrix_obj_def setToMatrix_def Let_def)
next
  case False
  then show ?thesis using assms
    by (simp add: setToMatrix_obj_def setToMatrix_def Let_def)
qed


text \<open>
  C9. \<open>postMultiply\<close> leaves its receiver as it was: after \<open>m.postMultiply(b)\<close> the six
  fields of \<open>m\<close> (and of every other matrix that existed before the call, \<open>b\<close> included)
  are unchanged, the product sits in a fresh object that nothing refers to. By contrast,
  after \<open>m.preMultiplyMatrix(b)\<close> the receiver holds the product \<open>b * m\<close>.
\<close>

theorem postMultiply_keeps_receiver:
  assumes "this < length s" and "b < length s"
  shows "postMultiply_obj s this b ! this = s ! this
       \<and> postMultiply_obj s this b ! b = s ! b
       \<and> take (length s) (postMultiply_obj s this b) = s
       \<and> preMultiplyMatrix_obj s this b ! this = multiplyMatrix (s ! b) (s ! this)"
proof -
  have post: "postMultiply_obj s this b = s @ [multiplyMatrix (s ! this) (s ! b)]"
    using assms by (simp add: postMultiply_obj_def multiplyMatrix_obj_value)
  have cl: "clone (s ! b) = s ! b"
    by (simp add: clone_def setTo_def new_Matrix_def)
  have pre: "preMultiplyMatrix_obj s this b ! this = multiplyMatrix (s ! b) (s ! this)"
    using assms
    by (simp add: preMultiplyMatrix_obj_def clone_obj_def multiplyMatrix_obj_value
        setToMatrix_obj_value nth_append cl setToMatrix_def multiplyMatrix_def new_Matrix_def)
  show ?thesis using assms post pre by (simp add: nth_append)
qed

theorem postMultiply_keeps_receiver_witness:
  "(0::nat) < length [new_Matrix\<lparr>m_tx := 3\<rparr>, new_Matrix\<lparr>m_a := 2, m_tx := 5\<rparr>]
   \<and> (1::nat) < length [new_Matrix\<lparr>m_tx := 3\<rparr>, new_Matrix\<lparr>m_a := 2, m_tx := 5\<rparr>]
   \<and> postMultiply_obj [new_Matrix\<lparr>m_tx := 3\<rparr>, new_Matrix\<lparr>m_a := 2, m_tx := 5\<rparr>] 0 1 ! 0
       = new_Matrix\<lparr>m_tx := 3\<rparr>
   \<and> preMultiplyMatrix_obj [new_Matrix\<lparr>m_tx := 3\<rparr>, new_Matrix\<lparr>m_a := 2, m_tx := 5\<rparr>] 0 1 ! 0
       = new_Matrix\<lparr>m_a := 2, m_tx := 11\<rparr>"
  using postMultiply_keeps_receiver [of 0 "[new_Matrix\<lparr>m_tx := 3\<rparr>, new_Matrix\<lparr>m_a := 2, m_tx := 5\<rparr>]" 1]
  by (simp add: multiplyMatrix_def new_Matrix_def)

section \<open>Transform: the setter of dirty\<close>

text \<open>The log does not influence the heap: a run that starts with a log \<open>lg\<close> does what
  the run with the empty log does and puts \<open>lg\<close> in front. So the setter without the log
  satisfies the equations of the source: clear one flag, or set it and go through the
  children.\<close>

lemma forEach_log_prefix:
  assumes "\<And>e h lg. f e (h, lg) =
             (case f e (h, []) of Inl err \<Rightarrow> Inl err | Inr s \<Rightarrow> Inr (fst s, lg @ snd s))"
  shows "forEach f cs (h, lg) =
           (case forEach f cs (h, []) of Inl err \<Rightarrow> Inl err | Inr s \<Rightarrow> Inr (fst s, lg @ snd s))"
proof (induction cs arbitrary: h lg)
  case Nil
  show ?case by simp
next
  case (Cons e es)
  show ?case
  proof (cases "f e (h, [])")
    case (Inl err)
    then show ?thesis using assms [of e h lg] by simp
  next
    case (Inr s)
    obtain h1 l1 where s: "s = (h1, l1)" by (cases s)
    have 1: "f e (h, lg) = Inr (h1, lg @ l1)" using assms [of e h lg] Inr s by simp
    have 2: "forEach f es (h1, lg @ l1) =
           (case forEach f es (h1, []) of Inl err \<Rightarrow> Inl err | Inr s \<Rightarrow> Inr (fst s, (lg @ l1) @ snd s))"
      by (rule Cons.IH)
    have 3: "forEach f es (h1, l1) =
           (case forEach f es (h1, []) of Inl err \<Rightarrow> Inl err | Inr s \<Rightarrow> Inr (fst s, l1 @ snd s))"
      by (rule Cons.IH)
    show ?thesis using 1 2 3 Inr s by (simp split: sum.splits)
  qed
qed

lemma dirty_set_log_prefix:
  "dirty_set_log n t v (h, lg) =
     (case dirty_set_log n t v (h, []) of Inl err \<Rightarrow> Inl err | Inr s \<Rightarrow> Inr (fst s, lg @ snd s))"
proof (induction n arbitrary: t h lg)
  case 0
  show ?case by (cases v) simp_all
next
  case (Suc n)
  show ?case
  proof (cases v)
    case False
    then show ?thesis by simp
  next
    case True
    let ?f = "\<lambda>e s. if e \<noteq> t
                     then dirty_set_log n e True (fst s, snd s @ [(t, e)])
                     else Inr (fst s, snd s @ [(t, e)])"
    have f: "?f e (h, lg) =
             (case ?f e (h, []) of Inl err \<Rightarrow> Inl err | Inr s \<Rightarrow> Inr (fst s, lg @ snd s))" for e h lg
    proof (cases "e = t")
      case True
      then show ?thesis by simp
    next
      case False
      have a: "dirty_set_log n e True (h, lg @ [(t, e)]) =
        (case dirty_set_log n e True (h, []) of Inl err \<Rightarrow> Inl err | Inr s \<Rightarrow> Inr (fst s, (lg @ [(t, e)]) @ snd s))"
        using Suc.IH [of e h "lg @ [(t, e)]"] True by simp
      have b: "dirty_set_log n e True (h, [(t, e)]) =
        (case dirty_set_log n e True (h, []) of Inl err \<Rightarrow> Inl err | Inr s \<Rightarrow> Inr (fst s, [(t, e)] @ snd s))"
        using Suc.IH [of e h "[(t, e)]"] True by simp
      show ?thesis using False a b by (simp split: sum.splits)
    qed
    show ?thesis
      using True forEach_log_prefix [of ?f "t_children (h t)" "h(t := (h t)\<lparr>t_dirty := True\<rparr>)" lg, OF f]
      by simp
  qed
qed

lemma forEach_fst:
  assumes pre: "\<And>e h lg. f e (h, lg) =
             (case f e (h, []) of Inl err \<Rightarrow> Inl err | Inr s \<Rightarrow> Inr (fst s, lg @ snd s))"
    and g: "\<And>e h. g e h = (case f e (h, []) of Inl err \<Rightarrow> Inl err | Inr s \<Rightarrow> Inr (fst s))"
  shows "(case forEach f cs (h, lg) of Inl err \<Rightarrow> Inl err | Inr s \<Rightarrow> Inr (fst s)) = forEach g cs h"
proof (induction cs arbitrary: h lg)
  case Nil
  show ?case by simp
next
  case (Cons e es)
  show ?case
  proof (cases "f e (h, [])")
    case (Inl err)
    then show ?thesis using pre [of e h lg] g [of e h] by simp
  next
    case (Inr s)
    obtain h1 l1 where s: "s = (h1, l1)" by (cases s)
    have 1: "f e (h, lg) = Inr (h1, lg @ l1)" using pre [of e h lg] Inr s by simp
    have 2: "g e h = Inr h1" using g [of e h] Inr s by simp
    show ?thesis using 1 2 Cons.IH [of h1 "lg @ l1"] by simp
  qed
qed

lemma dirty_set_False [simp]:
  "dirty_set n this False h = Inr (h(this := (h this)\<lparr>t_dirty := False\<rparr>))"
  by (simp add: dirty_set_def)

lemma dirty_set_0 [simp]: "dirty_set 0 this True h = Inl OutOfFuel"
  by (simp add: dirty_set_def)

lemma dirty_set_Suc [simp]:
  "dirty_set (Suc n) this True h =
     forEach (\<lambda>e h'. if e \<noteq> this then dirty_set n e True h' else Inr h')
       (t_children (h this))
       (h(this := (h this)\<lparr>t_dirty := True\<rparr>))"
proof -
  let ?f = "\<lambda>e s. if e \<noteq> this
                     then dirty_set_log n e True (fst s, snd s @ [(this, e)])
                     else Inr (fst s, snd s @ [(this, e)])"
  let ?g = "\<lambda>e h'. if e \<noteq> this then dirty_set n e True h' else Inr h'"
  have pre: "?f e (h, lg) =
             (case ?f e (h, []) of Inl err \<Rightarrow> Inl err | Inr s \<Rightarrow> Inr (fst s, lg @ snd s))" for e h lg
    using dirty_set_log_prefix [of n e True h "lg @ [(this, e)]"]
      dirty_set_log_prefix [of n e True h "[(this, e)]"]
    by (simp split: sum.splits)
  have g: "?g e h = (case ?f e (h, []) of Inl err \<Rightarrow> Inl err | Inr s \<Rightarrow> Inr (fst s))" for e h
    using dirty_set_log_prefix [of n e True h "[(this, e)]"]
    by (simp add: dirty_set_def split: sum.splits)
  show ?thesis
    using forEach_fst [of ?f ?g "t_children (h this)" "h(this := (h this)\<lparr>t_dirty := True\<rparr>)" "[]", OF pre g]
    by (simp add: dirty_set_def)
qed

section \<open>Transform: the parent setter\<close>

text \<open>A cycle of two transforms in the children lists keeps the cascade running: no
  amount of fuel is enough.\<close>

lemma two_cycle_diverges:
  "t_children (h a) = [b] \<Longrightarrow> t_children (h b) = [a] \<Longrightarrow> a \<noteq> b \<Longrightarrow>
   dirty_set n a True h = Inl OutOfFuel \<and> dirty_set n b True h = Inl OutOfFuel"
proof (induction n arbitrary: h)
  case 0 then show ?case by simp
next
  case (Suc n)
  let ?ha = "h(a := (h a)\<lparr>t_dirty := True\<rparr>)"
  let ?hb = "h(b := (h b)\<lparr>t_dirty := True\<rparr>)"
  have ca: "t_children (?ha a) = [b]" "t_children (?ha b) = [a]"
    using Suc.prems by simp_all
  have cb: "t_children (?hb a) = [b]" "t_children (?hb b) = [a]"
    using Suc.prems by simp_all
  have a: "dirty_set n b True ?ha = Inl OutOfFuel"
    using Suc.IH [OF ca Suc.prems(3)] by blast
  have b: "dirty_set n a True ?hb = Inl OutOfFuel"
    using Suc.IH [OF cb Suc.prems(3)] by blast
  show ?case using Suc.prems a b by simp
qed

text \<open>With transform 1 already a child of transform 0, the assignment
  \<open>t0.parent = t1\<close> installs the parent and then never comes back from the cascade.\<close>

lemma parent_cycle_never_returns:
  "parent_set n 0 (Some 1)
     (fresh_heap(1 := new_Transform\<lparr>t_children := [], t_parent := Some 0\<rparr>,
                 0 := new_Transform\<lparr>t_children := [1]\<rparr>)) = Inl OutOfFuel"
  apply (simp add: parent_set_def checkAncestor_def)
  apply (rule two_cycle_diverges [THEN conjunct1, of _ 0 1])
  apply (simp_all add: fresh_heap_def new_Transform_def)
  done

text \<open>
  C2. The claim is that an assignment of a parent that would make a transform its own
  ancestor is refused. The code does not refuse it: \<open>checkAncestor\<close> answers \<open>false\<close>
  whatever it is given, so on a new transform \<open>t\<close> the assignment \<open>t.parent = t\<close> returns
  with \<open>t\<close> installed as its own parent (and entered in its own children list).
\<close>

theorem parent_set_self_installs_cycle:
  "parent_set 1 0 (Some 0) fresh_heap
     = Inr (fresh_heap(0 := new_Transform\<lparr>t_children := [0], t_parent := Some 0\<rparr>))"
  by (simp add: parent_set_def checkAncestor_def fresh_heap_def new_Transform_def fun_eq_iff)

section \<open>Transform: the dirty cascade\<close>

lemma Point_update_all: "(p::Point)\<lparr>pt_x := x, pt_y := y\<rparr> = \<lparr>pt_x = x, pt_y = y\<rparr>"
  by (cases p) simp

lemma mark_children [simp]: "t_children (mark S h u) = t_children (h u)"
  by (simp add: mark_def)

lemma mark_parent [simp]: "t_parent (mark S h u) = t_parent (h u)"
  by (simp add: mark_def)

lemma mark_cached [simp]:
  "t_cachedConcatenatedMatrix (mark S h u) = t_cachedConcatenatedMatrix (h u)"
  by (simp add: mark_def)

lemma mark_dirty [simp]: "t_dirty (mark S h u) \<longleftrightarrow> u \<in> S \<or> t_dirty (h u)"
  by (simp add: mark_def)

lemma local_matrix_mark [simp]: "local_matrix (mark S h u) = local_matrix (h u)"
  by (simp add: mark_def local_matrix_def performTransformation_def Let_def)

lemma mark_upd: "(mark S h)(t := (mark S h t)\<lparr>t_dirty := True\<rparr>) = mark (insert t S) h"
  by (auto simp: mark_def fun_eq_iff)

lemma mark_empty: "mark {} h = h"
  by (simp add: mark_def)

text \<open>The cascade changes dirty flags only, and exactly those of the transforms in
  its trace.\<close>

lemma forEach_cascade:
  assumes IH: "\<And>e S. dirty_set n e True (mark S h) =
                 (case dirty_trace n h e of Inl err \<Rightarrow> Inl err
                  | Inr tr \<Rightarrow> Inr (mark (S \<union> set tr) h))"
  shows "forEach (\<lambda>e h'. if e \<noteq> t then dirty_set n e True h' else Inr h') cs
           (mark (S \<union> set tr0) h)
       = (case forEach (\<lambda>e tr. if e \<noteq> t
                      then (case dirty_trace n h e of Inl err \<Rightarrow> Inl err
                            | Inr tr' \<Rightarrow> Inr (tr @ tr'))
                      else Inr tr) cs tr0 of
            Inl err \<Rightarrow> Inl err | Inr tr \<Rightarrow> Inr (mark (S \<union> set tr) h))"
proof (induction cs arbitrary: tr0)
  case Nil
  show ?case by simp
next
  case (Cons e es)
  show ?case
  proof (cases "e = t")
    case True
    then show ?thesis using Cons.IH [of tr0] by simp
  next
    case False
    show ?thesis
    proof (cases "dirty_trace n h e")
      case (Inl err)
      then show ?thesis using False by (simp add: IH)
    next
      case (Inr tr')
      have "S \<union> set tr0 \<union> set tr' = S \<union> set (tr0 @ tr')" by auto
      then show ?thesis using False Inr Cons.IH [of "tr0 @ tr'"] by (simp add: IH)
    qed
  qed
qed

lemma dirty_set_mark:
  "dirty_set n t True (mark S h) =
     (case dirty_trace n h t of Inl err \<Rightarrow> Inl err | Inr tr \<Rightarrow> Inr (mark (S \<union> set tr) h))"
proof (induction n arbitrary: t S)
  case 0
  show ?case by simp
next
  case (Suc n)
  have "S \<union> set [t] = insert t S" by auto
  then show ?case
    using forEach_cascade [of n h t "t_children (h t)" S "[t]", OF Suc.IH]
    by (simp add: mark_upd)
qed

lemma dirty_set_trace:
  "dirty_set n t True h =
     (case dirty_trace n h t of Inl err \<Rightarrow> Inl err | Inr tr \<Rightarrow> Inr (mark (set tr) h))"
  using dirty_set_mark [of n t "{}" h] by (cases "dirty_trace n h t") (simp_all add: mark_empty)

text \<open>A trace is the transform itself followed by one trace for every entry of its
  children list, in order (empty for an entry that is the transform itself).\<close>

lemma forEach_trace_shape:
  "forEach (\<lambda>e tr. if e \<noteq> t
                      then (case dirty_trace n h e of Inl err \<Rightarrow> Inl err
                            | Inr tr' \<Rightarrow> Inr (tr @ tr'))
                      else Inr tr) cs tr0 = Inr tr \<Longrightarrow>
   \<exists>trs. tr = tr0 @ concat trs \<and>
         list_all2 (\<lambda>e tr'. if e \<noteq> t then dirty_trace n h e = Inr tr' else tr' = []) cs trs"
proof (induction cs arbitrary: tr0)
  case Nil
  then show ?case by simp
next
  case (Cons e es)
  let ?G = "\<lambda>e tr. if e \<noteq> t
                      then (case dirty_trace n h e of Inl err \<Rightarrow> Inl err
                            | Inr tr' \<Rightarrow> Inr (tr @ tr'))
                      else Inr tr"
  let ?P = "\<lambda>e tr'. if e \<noteq> t then dirty_trace n h e = Inr tr' else tr' = []"
  show ?case
  proof (cases "e = t")
    case True
    with Cons.prems have "forEach ?G es tr0 = Inr tr" by simp
    from Cons.IH [OF this] obtain trs where "tr = tr0 @ concat trs" "list_all2 ?P es trs"
      by blast
    then have "tr = tr0 @ concat ([] # trs) \<and> list_all2 ?P (e # es) ([] # trs)"
      using True by simp
    then show ?thesis by blast
  next
    case False
    with Cons.prems obtain tr' where e: "dirty_trace n h e = Inr tr'"
      and rest: "forEach ?G es (tr0 @ tr') = Inr tr"
      by (cases "dirty_trace n h e") simp_all
    from Cons.IH [OF rest] obtain trs where "tr = (tr0 @ tr') @ concat trs"
      "list_all2 ?P es trs"
      by blast
    then have "tr = tr0 @ concat (tr' # trs) \<and> list_all2 ?P (e # es) (tr' # trs)"
      using False e by simp
    then show ?thesis by blast
  qed
qed

lemma dirty_trace_shape:
  assumes "dirty_trace n h t = Inr tr"
  shows "\<exists>m trs. n = Suc m \<and> tr = t # concat trs \<and>
         list_all2 (\<lambda>e tr'. if e \<noteq> t then dirty_trace m h e = Inr tr' else tr' = [])
           (t_children (h t)) trs"
proof (cases n)
  case 0
  with assms show ?thesis by simp
next
  case (Suc m)
  with assms forEach_trace_shape [of t m h "t_children (h t)" "[t]" tr]
  show ?thesis by auto
qed



text \<open>Without a cycle in the children lists the cascade comes back, with fuel above
  the rank of the transform it starts from.\<close>

lemma forEach_trace_returns:
  assumes "\<And>e. e \<in> set cs \<Longrightarrow> e \<noteq> t \<Longrightarrow> \<exists>tr'. dirty_trace n h e = Inr tr'"
  shows "\<exists>tr. forEach (\<lambda>e tr. if e \<noteq> t
                      then (case dirty_trace n h e of Inl err \<Rightarrow> Inl err
                            | Inr tr' \<Rightarrow> Inr (tr @ tr'))
                      else Inr tr) cs tr0 = Inr tr"
  using assms
proof (induction cs arbitrary: tr0)
  case Nil
  show ?case by simp
next
  case (Cons e es)
  show ?case
  proof (cases "e = t")
    case True
    then show ?thesis using Cons.IH [of tr0] Cons.prems by simp
  next
    case False
    then obtain tr' where "dirty_trace n h e = Inr tr'" using Cons.prems by auto
    then show ?thesis using False Cons.IH [of "tr0 @ tr'"] Cons.prems by simp
  qed
qed

lemma dirty_trace_returns:
  assumes "acyclic_children rk h"
  shows "rk t < n \<Longrightarrow> \<exists>tr. dirty_trace n h t = Inr tr"
proof (induction n arbitrary: t)
  case 0
  then show ?case by simp
next
  case (Suc n)
  have "\<exists>tr'. dirty_trace n h e = Inr tr'" if "e \<in> set (t_children (h t))" "e \<noteq> t" for e
  proof -
    from assms that have "rk e < rk t" by (auto simp: acyclic_children_def)
    with Suc.prems have "rk e < n" by simp
    then show ?thesis by (rule Suc.IH)
  qed
  then show ?case using forEach_trace_returns [of "t_children (h t)" t n h "[t]"] by simp
qed

section \<open>Transform: chains and the concatenated matrix\<close>


















section \<open>Transform: the children list under the parent setter\<close>

lemma acyclic_children_cong:
  "(\<And>u. t_children (h' u) = t_children (h u)) \<Longrightarrow> acyclic_children rk h' = acyclic_children rk h"
  by (simp add: acyclic_children_def)

text \<open>What the setter does when it is given a transform: the push, the assignment of
  \<open>_parent\<close>, the cascade.\<close>

lemma parent_set_Some:
  "parent_set fuel t (Some p) h =
     dirty_set fuel t True
       ((h(p := (h p)\<lparr>t_children := t_children (h p) @ [t]\<rparr>))
          (t := ((h(p := (h p)\<lparr>t_children := t_children (h p) @ [t]\<rparr>)) t)\<lparr>t_parent := Some p\<rparr>))"
  by (simp add: parent_set_def checkAncestor_def)

lemma parent_set_children:
  assumes "parent_set fuel t (Some p) h = Inr h1"
  shows "t_children (h1 p) = t_children (h p) @ [t]"
    and "u \<noteq> p \<Longrightarrow> t_children (h1 u) = t_children (h u)"
proof -
  let ?g = "(h(p := (h p)\<lparr>t_children := t_children (h p) @ [t]\<rparr>))
          (t := ((h(p := (h p)\<lparr>t_children := t_children (h p) @ [t]\<rparr>)) t)\<lparr>t_parent := Some p\<rparr>)"
  from assms obtain tr where h1: "h1 = mark (set tr) ?g"
    unfolding parent_set_Some dirty_set_trace
    by (cases "dirty_trace fuel ?g t") auto
  show "t_children (h1 p) = t_children (h p) @ [t]"
    unfolding h1 by simp
  show "t_children (h1 u) = t_children (h u)" if "u \<noteq> p"
    unfolding h1 using that by simp
qed

lemma child_edge_cong: "same_children h h' \<Longrightarrow> child_edge h' = child_edge h"
  by (simp add: child_edge_def same_children_def fun_eq_iff)

lemma same_children_refl [simp]: "same_children h h"
  by (simp add: same_children_def)

lemma same_children_trans: "same_children h h1 \<Longrightarrow> same_children h1 h2 \<Longrightarrow> same_children h h2"
  by (simp add: same_children_def)

lemma same_children_dirty [simp]: "same_children h (h(t := (h t)\<lparr>t_dirty := b\<rparr>))"
  by (simp add: same_children_def)

text \<open>A set of transforms each of which has a child in the set other than itself: a
  cascade that enters it never comes back.\<close>

lemma cascade_cycle_diverges:
  assumes S: "\<And>v. v \<in> S \<Longrightarrow> \<exists>c. child_edge h v c \<and> c \<in> S"
  shows "v \<in> S \<Longrightarrow> dirty_trace n h v \<noteq> Inr tr"
proof (induction n arbitrary: v tr)
  case 0
  show ?case by simp
next
  case (Suc n)
  show ?case
  proof
    assume r: "dirty_trace (Suc n) h v = Inr tr"
    from dirty_trace_shape [OF r] obtain trs where
      all: "list_all2 (\<lambda>e tr'. if e \<noteq> v then dirty_trace n h e = Inr tr' else tr' = [])
           (t_children (h v)) trs"
      by auto
    from S [OF Suc.prems] obtain c where c: "c \<in> set (t_children (h v))" "c \<noteq> v" "c \<in> S"
      by (auto simp: child_edge_def)
    from c(1) obtain k where k: "k < length (t_children (h v))" "t_children (h v) ! k = c"
      by (auto simp: in_set_conv_nth)
    with all c(2) have "dirty_trace n h c = Inr (trs ! k)"
      by (auto simp: list_all2_conv_all_nth)
    with Suc.IH [OF c(3)] show False by blast
  qed
qed

lemma dirty_set_log_returns_trace:
  assumes "dirty_set_log n t True (h, l0) = Inr s"
  shows "\<exists>tr. dirty_trace n h t = Inr tr"
proof -
  from assms have "\<exists>s'. dirty_set_log n t True (h, []) = Inr s'"
    using dirty_set_log_prefix [of n t True h l0] by (auto split: sum.splits)
  then have "\<exists>h'. dirty_set n t True h = Inr h'"
    by (auto simp: dirty_set_def)
  then show ?thesis
    unfolding dirty_set_trace by (cases "dirty_trace n h t") auto
qed

lemma forEach_inv:
  assumes "forEach f cs s = Inr s'" and "P s"
    and "\<And>e s s'. e \<in> set cs \<Longrightarrow> P s \<Longrightarrow> f e s = Inr s' \<Longrightarrow> P s'"
  shows "P s'"
  using assms
proof (induction cs arbitrary: s)
  case Nil
  then show ?case by simp
next
  case (Cons e es)
  from Cons.prems(1) obtain s1 where 1: "f e s = Inr s1" and 2: "forEach f es s1 = Inr s'"
    by (cases "f e s") simp_all
  have s1: "P s1" using Cons.prems(3) [OF _ Cons.prems(2) 1] by simp
  have step: "\<And>e s s'. e \<in> set es \<Longrightarrow> P s \<Longrightarrow> f e s = Inr s' \<Longrightarrow> P s'"
    using Cons.prems(3) by auto
  show ?case by (rule Cons.IH [OF 2 s1 step])
qed

lemma dirty_set_log_children:
  "dirty_set_log n t v (h, l0) = Inr s \<Longrightarrow> same_children h (fst s)"
proof (induction n arbitrary: t h l0 s)
  case 0
  then show ?case by (cases v) (auto simp: same_children_def)
next
  case (Suc n)
  show ?case
  proof (cases v)
    case False
    with Suc.prems show ?thesis by (auto simp: same_children_def)
  next
    case True
    note v = True
    let ?f = "\<lambda>e s. if e \<noteq> t
                     then dirty_set_log n e True (fst s, snd s @ [(t, e)])
                     else Inr (fst s, snd s @ [(t, e)])"
    let ?h0 = "h(t := (h t)\<lparr>t_dirty := True\<rparr>)"
    from Suc.prems True have fe: "forEach ?f (t_children (h t)) (?h0, l0) = Inr s" by simp
    have "same_children h (fst s)"
    proof (rule forEach_inv [OF fe, of "\<lambda>s. same_children h (fst s)"])
      show "same_children h (fst (?h0, l0))" by simp
    next
      fix e s1 s2
      assume p: "same_children h (fst s1)" and st: "?f e s1 = Inr s2"
      show "same_children h (fst s2)"
      proof (cases "e = t")
        case True
        with st p show ?thesis by auto
      next
        case False
        with st v have "dirty_set_log n e v (fst s1, snd s1 @ [(t, e)]) = Inr s2" by simp
        from Suc.IH [OF this] p show ?thesis by (rule same_children_trans [rotated])
      qed
    qed
    then show ?thesis .
  qed
qed


lemma no_cycle_of_return:
  assumes r: "dirty_trace n h p = Inr tr" and e: "child_edge h p e"
  shows "\<not> (child_edge h)\<^sup>*\<^sup>* e p"
proof
  assume bk: "(child_edge h)\<^sup>*\<^sup>* e p"
  let ?S = "{v. (child_edge h)\<^sup>*\<^sup>* p v \<and> (child_edge h)\<^sup>*\<^sup>* v p}"
  have step: "\<exists>c. child_edge h v c \<and> c \<in> ?S" if "v \<in> ?S" for v
  proof (cases "v = p")
    case True
    have "(child_edge h)\<^sup>*\<^sup>* p e" using e by blast
    with e bk True show ?thesis by blast
  next
    case False
    from that have pv: "(child_edge h)\<^sup>*\<^sup>* p v" and vp: "(child_edge h)\<^sup>*\<^sup>* v p" by auto
    from vp False obtain c where c: "child_edge h v c" "(child_edge h)\<^sup>*\<^sup>* c p"
      by (auto elim: converse_rtranclpE)
    from pv c(1) have "(child_edge h)\<^sup>*\<^sup>* p c" by (rule rtranclp.rtrancl_into_rtrancl)
    with c show ?thesis by blast
  qed
  have "p \<in> ?S" by simp
  from cascade_cycle_diverges [of ?S h p n tr, OF step this] r show False by blast
qed

text \<open>Every pair that a cascade from \<open>e\<close> logs has as first component \<open>e\<close> or a transform
  below it.\<close>

lemma dirty_set_log_reach:
  "dirty_set_log n e True (h, l0) = Inr s \<Longrightarrow>
   \<exists>l'. snd s = l0 @ l' \<and> (\<forall>x \<in> set l'. (child_edge h)\<^sup>*\<^sup>* e (fst x))"
proof (induction n arbitrary: e h l0 s)
  case 0
  then show ?case by simp
next
  case (Suc n)
  let ?f = "\<lambda>c s. if c \<noteq> e
                     then dirty_set_log n c True (fst s, snd s @ [(e, c)])
                     else Inr (fst s, snd s @ [(e, c)])"
  let ?h0 = "h(e := (h e)\<lparr>t_dirty := True\<rparr>)"
  let ?P = "\<lambda>s. same_children h (fst s)
              \<and> (\<exists>l'. snd s = l0 @ l' \<and> (\<forall>x \<in> set l'. (child_edge h)\<^sup>*\<^sup>* e (fst x)))"
  from Suc.prems have fe: "forEach ?f (t_children (h e)) (?h0, l0) = Inr s" by simp
  have "?P s"
  proof (rule forEach_inv [OF fe, of ?P])
    show "?P (?h0, l0)" by simp
  next
    fix c s1 s2
    assume c: "c \<in> set (t_children (h e))" and p: "?P s1" and st: "?f c s1 = Inr s2"
    from p obtain l1 where sc: "same_children h (fst s1)" and l1: "snd s1 = l0 @ l1"
      and r1: "\<forall>x \<in> set l1. (child_edge h)\<^sup>*\<^sup>* e (fst x)"
      by blast
    show "?P s2"
    proof (cases "c = e")
      case True
      with st have "s2 = (fst s1, snd s1 @ [(e, c)])" by simp
      then have "fst s2 = fst s1" "snd s2 = l0 @ (l1 @ [(e, c)])" using l1 by simp_all
      moreover have "\<forall>x \<in> set (l1 @ [(e, c)]). (child_edge h)\<^sup>*\<^sup>* e (fst x)" using r1 by simp
      ultimately show ?thesis using sc by metis
    next
      case False
      with st have run: "dirty_set_log n c True (fst s1, snd s1 @ [(e, c)]) = Inr s2" by simp
      from Suc.IH [OF run] obtain l2 where l2: "snd s2 = (snd s1 @ [(e, c)]) @ l2"
        and r2: "\<forall>x \<in> set l2. (child_edge (fst s1))\<^sup>*\<^sup>* c (fst x)"
        by blast
      have ec: "child_edge h e c" using c False by (simp add: child_edge_def)
      have r2': "\<forall>x \<in> set l2. (child_edge h)\<^sup>*\<^sup>* e (fst x)"
        using r2 ec unfolding child_edge_cong [OF sc]
        by (meson converse_rtranclp_into_rtranclp)
      have "same_children h (fst s2)"
        using sc dirty_set_log_children [OF run] by (auto intro: same_children_trans)
      moreover have "snd s2 = l0 @ (l1 @ [(e, c)] @ l2)" using l1 l2 by simp
      moreover have "\<forall>x \<in> set (l1 @ [(e, c)] @ l2). (child_edge h)\<^sup>*\<^sup>* e (fst x)"
        using r1 r2' by auto
      ultimately show ?thesis by metis
    qed
  qed
  then show ?case by blast
qed

lemma forEach_count:
  assumes step: "\<And>e s1 s2. e \<in> set cs \<Longrightarrow> Q s1 \<Longrightarrow> f e s1 = Inr s2 \<Longrightarrow>
            Q s2 \<and> count_list (snd s2) x = count_list (snd s1) x + (if e = t then 1 else 0)"
  shows "forEach f cs s1 = Inr s2 \<Longrightarrow> Q s1 \<Longrightarrow>
         count_list (snd s2) x = count_list (snd s1) x + count_list cs t"
  using step
proof (induction cs arbitrary: s1)
  case Nil
  then show ?case by simp
next
  case (Cons e es)
  from Cons.prems(1) obtain s' where 1: "f e s1 = Inr s'" and 2: "forEach f es s' = Inr s2"
    by (cases "f e s1") simp_all
  have a: "Q s' \<and> count_list (snd s') x = count_list (snd s1) x + (if e = t then 1 else 0)"
    using Cons.prems(3) [OF _ Cons.prems(2) 1] by simp
  have st: "Q b \<and> count_list (snd b) x = count_list (snd a) x + (if c = t then 1 else 0)"
    if "c \<in> set es" "Q a" "f c a = Inr b" for c a b
    using Cons.prems(3) [of c a b] that by simp
  have q: "Q s'" using a by simp
  have "count_list (snd s2) x = count_list (snd s') x + count_list es t"
    by (rule Cons.IH [OF 2 q st])
  with a show ?case by simp
qed

text \<open>A cascade from \<open>p\<close> that comes back has gone through the children list of \<open>p\<close>
  once: the loop of \<open>p\<close> has reached \<open>t\<close> as often as \<open>t\<close> is in that list.\<close>

lemma dirty_set_log_count:
  assumes run: "dirty_set_log n p True (h, []) = Inr s"
  shows "count_list (snd s) (p, t) = count_list (t_children (h p)) t"
proof (cases n)
  case 0
  with run show ?thesis by simp
next
  case (Suc m)
  let ?f = "\<lambda>c s. if c \<noteq> p
                     then dirty_set_log m c True (fst s, snd s @ [(p, c)])
                     else Inr (fst s, snd s @ [(p, c)])"
  let ?h0 = "h(p := (h p)\<lparr>t_dirty := True\<rparr>)"
  from run Suc have fe: "forEach ?f (t_children (h p)) (?h0, []) = Inr s" by simp
  from dirty_set_log_returns_trace [OF run] obtain tr where tr: "dirty_trace n h p = Inr tr"
    by blast
  have step: "same_children h (fst s2)
        \<and> count_list (snd s2) (p, t) = count_list (snd s1) (p, t) + (if c = t then 1 else 0)"
    if c: "c \<in> set (t_children (h p))" and sc: "same_children h (fst s1)"
      and st: "?f c s1 = Inr s2" for c s1 s2
  proof (cases "c = p")
    case True
    with st have "s2 = (fst s1, snd s1 @ [(p, c)])" by simp
    then show ?thesis using sc by auto
  next
    case False
    with st have sub: "dirty_set_log m c True (fst s1, snd s1 @ [(p, c)]) = Inr s2" by simp
    from dirty_set_log_reach [OF sub] obtain l2 where l2: "snd s2 = (snd s1 @ [(p, c)]) @ l2"
      and r2: "\<forall>x \<in> set l2. (child_edge (fst s1))\<^sup>*\<^sup>* c (fst x)"
      by blast
    have pc: "child_edge h p c" using c False by (simp add: child_edge_def)
    have "fst x \<noteq> p" if "x \<in> set l2" for x
      using r2 that no_cycle_of_return [OF tr pc] unfolding child_edge_cong [OF sc] by auto
    then have "(p, t) \<notin> set l2" by force
    then have "count_list l2 (p, t) = 0" by (simp add: count_list_0_iff)
    moreover have "same_children h (fst s2)"
      using sc dirty_set_log_children [OF sub] by (auto intro: same_children_trans)
    ultimately show ?thesis using l2 by auto
  qed
  have "count_list (snd s) (p, t) = count_list (snd (?h0, [])) (p, t) + count_list (t_children (h p)) t"
    by (rule forEach_count [of "t_children (h p)" "\<lambda>s. same_children h (fst s)" ?f "(p, t)" t,
          OF step fe]) simp_all
  then show ?thesis by simp
qed




lemma parent_set_returns:
  assumes acyc: "acyclic_children rk h" and edge: "t = p \<or> rk t < rk p" and fuel: "rk t < fuel"
  shows "\<exists>h1. parent_set fuel t (Some p) h = Inr h1 \<and> acyclic_children rk h1"
proof -
  let ?g = "(h(p := (h p)\<lparr>t_children := t_children (h p) @ [t]\<rparr>))
          (t := ((h(p := (h p)\<lparr>t_children := t_children (h p) @ [t]\<rparr>)) t)\<lparr>t_parent := Some p\<rparr>)"
  have g: "acyclic_children rk ?g"
    using acyc edge by (auto simp: acyclic_children_def)
  from dirty_trace_returns [OF g fuel] obtain tr where "dirty_trace fuel ?g t = Inr tr"
    by blast
  then have "parent_set fuel t (Some p) h = Inr (mark (set tr) ?g)"
    unfolding parent_set_Some dirty_set_trace by simp
  moreover have "acyclic_children rk (mark (set tr) ?g)"
    using g acyclic_children_cong [of "mark (set tr) ?g" ?g rk] by simp
  ultimately show ?thesis by blast
qed

lemma dirty_set_log_returns:
  assumes "acyclic_children rk h" and "rk p < n"
  shows "\<exists>s. dirty_set_log n p True (h, []) = Inr s"
proof -
  from dirty_trace_returns [OF assms] obtain tr where "dirty_trace n h p = Inr tr" by blast
  then have "dirty_set n p True h = Inr (mark (set tr) h)"
    unfolding dirty_set_trace by simp
  then show ?thesis by (auto simp: dirty_set_def split: sum.splits)
qed

text \<open>
  C10. With a transform \<open>p\<close> as argument the setter of \<open>parent\<close> pushes the assigned
  transform \<open>t\<close> onto the children list of \<open>p\<close> before anything else, whatever the list
  holds already and whether or not \<open>t\<close> is \<open>p\<close> itself: every call that returns has
  appended \<open>t\<close>. Two assignments of the same parent leave \<open>t\<close> twice more in the list,
  and in every cascade from \<open>p\<close> that comes back the loop of the setter of \<open>p\<close> has then
  reached \<open>t\<close> exactly as often as \<open>t\<close> is in the list, two times more than before: the
  log of the setter holds the pair \<open>(p, t)\<close> that many times. When the children lists
  have no cycle before, and \<open>t\<close> is \<open>p\<close> or ranks below it, the two assignments and the
  cascade do come back, with any fuel above the rank of \<open>p\<close>.
\<close>

theorem parent_set_appends_child:
  "(\<forall>f1 h1. parent_set f1 t (Some p) h = Inr h1 \<longrightarrow>
       t_children (h1 p) = t_children (h p) @ [t]
     \<and> (\<forall>f2 h2. parent_set f2 t (Some p) h1 = Inr h2 \<longrightarrow>
          t_children (h2 p) = t_children (h p) @ [t, t]
        \<and> (\<forall>n s. dirty_set_log n p True (h2, []) = Inr s \<longrightarrow>
             count_list (snd s) (p, t) = count_list (t_children (h p)) t + 2)))
   \<and> (acyclic_children rk h \<and> (t = p \<or> rk t < rk p) \<and> rk p < n \<longrightarrow>
        (\<exists>h1 h2 s. parent_set n t (Some p) h = Inr h1 \<and> parent_set n t (Some p) h1 = Inr h2
                 \<and> dirty_set_log n p True (h2, []) = Inr s))"
proof (intro conjI allI impI)
  fix f1 h1
  assume s1: "parent_set f1 t (Some p) h = Inr h1"
  show c1: "t_children (h1 p) = t_children (h p) @ [t]"
    using parent_set_children(1) [OF s1] .
  fix f2 h2
  assume s2: "parent_set f2 t (Some p) h1 = Inr h2"
  show c2: "t_children (h2 p) = t_children (h p) @ [t, t]"
    using parent_set_children(1) [OF s2] c1 by simp
  fix n s
  assume run: "dirty_set_log n p True (h2, []) = Inr s"
  show "count_list (snd s) (p, t) = count_list (t_children (h p)) t + 2"
    using dirty_set_log_count [OF run, of t] c2 by simp
next
  assume a: "acyclic_children rk h \<and> (t = p \<or> rk t < rk p) \<and> rk p < n"
  then have ft: "rk t < n" and a0: "acyclic_children rk h" and ed: "t = p \<or> rk t < rk p"
    and fp: "rk p < n"
    by auto
  from parent_set_returns [OF a0 ed ft] obtain h1 where
    s1: "parent_set n t (Some p) h = Inr h1" and a1: "acyclic_children rk h1"
    by blast
  from parent_set_returns [OF a1 ed ft] obtain h2 where
    s2: "parent_set n t (Some p) h1 = Inr h2" and a2: "acyclic_children rk h2"
    by blast
  from dirty_set_log_returns [OF a2 fp] obtain s where "dirty_set_log n p True (h2, []) = Inr s"
    by blast
  with s1 s2 show "\<exists>h1 h2 s. parent_set n t (Some p) h = Inr h1 \<and> parent_set n t (Some p) h1 = Inr h2
                 \<and> dirty_set_log n p True (h2, []) = Inr s"
    by blast
qed

lemma fresh_heap_acyclic: "acyclic_children (\<lambda>u. if u = 0 then 1 else 0) fresh_heap"
  by (simp add: acyclic_children_def fresh_heap_def new_Transform_def)

lemma twice_parented:
  "parent_set 2 1 (Some 0) fresh_heap
     = Inr (fresh_heap(0 := new_Transform\<lparr>t_children := [1]\<rparr>,
                       1 := new_Transform\<lparr>t_parent := Some 0\<rparr>))"
  "parent_set 2 1 (Some 0) (fresh_heap(0 := new_Transform\<lparr>t_children := [1]\<rparr>,
                       1 := new_Transform\<lparr>t_parent := Some 0\<rparr>))
     = Inr twice_parented_heap"
  by (simp_all add: parent_set_def checkAncestor_def eval_nat_numeral twice_parented_heap_def
      fresh_heap_def new_Transform_def fun_eq_iff)

lemma twice_parented_log:
  "dirty_set_log 2 0 True (twice_parented_heap, []) = Inr (twice_parented_heap, [(0, 1), (0, 1)])"
  by (simp add: eval_nat_numeral twice_parented_heap_def fresh_heap_def new_Transform_def fun_eq_iff)

theorem parent_set_appends_child_witness:
  "parent_set 2 1 (Some 0) fresh_heap
     = Inr (fresh_heap(0 := new_Transform\<lparr>t_children := [1]\<rparr>,
                       1 := new_Transform\<lparr>t_parent := Some 0\<rparr>))
   \<and> parent_set 2 1 (Some 0) (fresh_heap(0 := new_Transform\<lparr>t_children := [1]\<rparr>,
                       1 := new_Transform\<lparr>t_parent := Some 0\<rparr>))
     = Inr twice_parented_heap
   \<and> t_children (twice_parented_heap 0) = [1, 1]
   \<and> dirty_set_log 2 0 True (twice_parented_heap, []) = Inr (twice_parented_heap, [(0, 1), (0, 1)])
   \<and> count_list [(0, 1), (0, 1)] (0::nat, 1::nat) = 2"
proof -
  note T = parent_set_appends_child [of 1 0 fresh_heap "\<lambda>u. if u = 0 then 1 else 0" 2]
  have pre: "acyclic_children (\<lambda>u. if u = 0 then 1 else 0) fresh_heap
       \<and> ((1::nat) = 0 \<or> (if (1::nat) = 0 then 1 else 0) < (if (0::nat) = 0 then 1 else (0::nat)))
       \<and> (if (0::nat) = 0 then 1 else 0) < (2::nat)"
    using fresh_heap_acyclic by simp
  from T [THEN conjunct2, rule_format, OF pre] obtain h1 h2 s where
    "parent_set 2 1 (Some 0) fresh_heap = Inr h1" "parent_set 2 1 (Some 0) h1 = Inr h2"
    "dirty_set_log 2 0 True (h2, []) = Inr s"
    by blast
  moreover from T [THEN conjunct1, rule_format, OF twice_parented(1)]
  have "t_children ((fresh_heap(0 := new_Transform\<lparr>t_children := [1]\<rparr>,
                       1 := new_Transform\<lparr>t_parent := Some 0\<rparr>)) 0) = t_children (fresh_heap 0) @ [1]"
    and "\<forall>f2 h2. parent_set f2 1 (Some 0) (fresh_heap(0 := new_Transform\<lparr>t_children := [1]\<rparr>,
                       1 := new_Transform\<lparr>t_parent := Some 0\<rparr>)) = Inr h2 \<longrightarrow>
          t_children (h2 0) = t_children (fresh_heap 0) @ [1, 1]
        \<and> (\<forall>n s. dirty_set_log n 0 True (h2, []) = Inr s \<longrightarrow>
             count_list (snd s) (0, 1) = count_list (t_children (fresh_heap 0)) 1 + 2)"
    by blast+
  then have "t_children (twice_parented_heap 0) = t_children (fresh_heap 0) @ [1, 1]"
    and "count_list (snd (twice_parented_heap, [(0, 1), (0, 1)])) (0::nat, 1::nat)
           = count_list (t_children (fresh_heap 0)) 1 + 2"
    using twice_parented(2) twice_parented_log by blast+
  ultimately show ?thesis
    using twice_parented twice_parented_log by (simp add: fresh_heap_def new_Transform_def)
qed


section \<open>Transform: a move of an ancestor\<close>












lemma local_matrix_fields [simp]:
  "local_matrix (T\<lparr>t_dirty := b\<rparr>) = local_matrix T"
  "local_matrix (T\<lparr>t_cachedConcatenatedMatrix := M\<rparr>) = local_matrix T"
  "local_matrix (T\<lparr>t_matrix := M\<rparr>) = local_matrix T"
  "local_matrix (performTransformation T) = local_matrix T"
  by (simp_all add: local_matrix_def performTransformation_def setTo_def Let_def)

lemma performTransformation_fields [simp]:
  "t_children (performTransformation T) = t_children T"
  "t_parent (performTransformation T) = t_parent T"
  "t_dirty (performTransformation T) = t_dirty T"
  "t_cachedConcatenatedMatrix (performTransformation T) = t_cachedConcatenatedMatrix T"
  "t_matrix (performTransformation T) = local_matrix T"
  by (simp_all add: performTransformation_def local_matrix_def Let_def)

lemma setToMatrix_value [simp]: "setToMatrix M N = M"
  by (simp add: setToMatrix_def)
















lemmas camera_defs = camera_at_origin_def camera_cleaned_def camera_thrown_def
  fresh_heap_def new_Transform_def new_Point_def new_Matrix_def

lemmas core_defs = core_camera_def core_scaled_def core_scaled_read_def core_resized_def
  fresh_heap_def new_Transform_def new_Point_def new_Matrix_def

section \<open>Camera: the resize handler\<close>

lemma mark_origin [simp]: "t_origin (mark S h u) = t_origin (h u)"
  by (simp add: mark_def)

lemma mark_pivotPoint [simp]: "t_pivotPoint (mark S h u) = t_pivotPoint (h u)"
  by (simp add: mark_def)

text \<open>In general. The handler of the camera that extends \<open>Transformable\<close> ends in an
  error whatever it is given, and when the error is the one of the missing method, the
  origin has been set to \<open>(-width/2, -height/2)\<close> and the pivot is what it was. The
  handler of the other camera sets origin and pivot to \<open>(width/2, height/2)\<close> and leaves
  every dirty flag as it was.\<close>

lemma updatedStageSize_raises:
  assumes "updatedStageSize fuel width height s = (err, Some (h', cam'))"
  shows "err = TypeError" and "c_width cam' = width" and "c_height cam' = height"
    and "t_origin (h' (c_transform (snd s))) = \<lparr>pt_x = - width / 2, pt_y = - height / 2\<rparr>"
    and "t_pivotPoint (h' (c_transform (snd s))) = t_pivotPoint (fst s (c_transform (snd s)))"
    and "c_dirty cam' = c_dirty (snd s)"
proof -
  let ?t = "c_transform (snd s)"
  let ?g = "(fst s)(?t := (fst s ?t)\<lparr>t_origin := \<lparr>pt_x = - width / 2, pt_y = - height / 2\<rparr>\<rparr>)"
  from assms obtain h1 where so: "setOrigin fuel ?t (- width / 2) (- height / 2) (fst s) = Inr h1"
    and r: "err = TypeError" "h' = h1" "cam' = (snd s)\<lparr>c_width := width, c_height := height\<rparr>"
    by (auto simp: updatedStageSize_def Let_def split: sum.splits)
  from so obtain tr where h1: "h1 = mark (set tr) ?g"
    unfolding setOrigin_def Let_def dirty_set_trace
    by (cases "dirty_trace fuel ?g ?t") (auto simp: Point_update_all)
  show "err = TypeError" by (rule r)
  show "c_width cam' = width" "c_height cam' = height" "c_dirty cam' = c_dirty (snd s)"
    using r by simp_all
  show "t_origin (h' ?t) = \<lparr>pt_x = - width / 2, pt_y = - height / 2\<rparr>"
    unfolding r h1 by simp
  show "t_pivotPoint (h' ?t) = t_pivotPoint (fst s ?t)"
    unfolding r h1 by simp
qed

lemma updatedStageSize_core_fields:
  "k_width (snd (updatedStageSize_core width height s)) = width"
  "k_height (snd (updatedStageSize_core width height s)) = height"
  "t_origin (fst (updatedStageSize_core width height s) (k_transform (snd s)))
     = \<lparr>pt_x = width / 2, pt_y = height / 2\<rparr>"
  "t_pivotPoint (fst (updatedStageSize_core width height s) (k_transform (snd s)))
     = \<lparr>pt_x = width / 2, pt_y = height / 2\<rparr>"
  "t_dirty (fst (updatedStageSize_core width height s) u) = t_dirty (fst s u)"
  by (simp_all add: updatedStageSize_core_def origin_setTo_def pivotPoint_setTo_def Let_def
      Point_setTo_def Point_update_all)

text \<open>
  C8. The claim is that a resize leaves origin and pivot at \<open>(width/2, height/2)\<close> and
  the camera marked dirty. Neither camera does that.

  The camera of \<open>src/core/Camera.ts\<close>, made for a stage of 800 by 600, given
  \<open>scaleX = 2\<close> and read once: the resize to 1024 by 768 puts origin and pivot at
  \<open>(512, 384)\<close>, but writes them through the getters, so that the transform stays clean
  and the next \<open>getConcatenatedMatrix\<close> returns the matrix of the old origin, with
  \<open>tx = -400\<close>, where the fields now give \<open>tx = -512\<close>.

  The camera that extends \<open>Transformable\<close>: \<open>new Camera(game, id, name, 0, 0, 800, 600)\<close>
  runs the handler in its constructor, which puts the origin at \<open>(-400, -300)\<close> and then
  raises a \<open>TypeError\<close> on the missing \<open>setPivotPoint\<close>, the pivot still at \<open>(0, 0)\<close>.
\<close>

theorem updatedStageSize_misses_recentering:
  "new_Camera_core 0 0 0 800 600 fresh_heap = core_camera
   \<and> scaleX_set 1 0 2 (fst core_camera) = Inr core_scaled
   \<and> getConcatenatedMatrix 1 0 core_scaled
       = Inr (core_scaled_read, new_Matrix\<lparr>m_a := 2, m_tx := - 400\<rparr>)
   \<and> updatedStageSize_core 1024 768 (core_scaled_read, snd core_camera) = core_resized
   \<and> t_origin (fst core_resized 0) = new_Point 512 384
   \<and> t_pivotPoint (fst core_resized 0) = new_Point 512 384
   \<and> \<not> t_dirty (fst core_resized 0)
   \<and> getConcatenatedMatrix 1 0 (fst core_resized)
       = Inr (fst core_resized, new_Matrix\<lparr>m_a := 2, m_tx := - 400\<rparr>)
   \<and> local_matrix (fst core_resized 0) = new_Matrix\<lparr>m_a := 2, m_tx := - 512\<rparr>
   \<and> new_Camera 1 0 0 0 800 600 fresh_heap = (TypeError, Some camera_thrown)
   \<and> t_origin (fst camera_thrown 0) = new_Point (- 400) (- 300)
   \<and> t_pivotPoint (fst camera_thrown 0) = new_Point 0 0"
proof -
  have 1: "new_Camera_core 0 0 0 800 600 fresh_heap = core_camera"
    by (simp add: new_Camera_core_def updatedStageSize_core_def xy_setTo_def origin_setTo_def
      pivotPoint_setTo_def Point_setTo_def core_defs Let_def fun_eq_iff)
  have 2: "scaleX_set 1 0 2 (fst core_camera) = Inr core_scaled"
    by (simp add: scaleX_set_def core_defs fun_eq_iff)
  have 3: "getConcatenatedMatrix 1 0 core_scaled
       = Inr (core_scaled_read, new_Matrix\<lparr>m_a := 2, m_tx := - 400\<rparr>)"
    by (simp add: performTransformation_def setTo_def setToMatrix_def core_defs Let_def fun_eq_iff)
  have 4: "updatedStageSize_core 1024 768 (core_scaled_read, snd core_camera) = core_resized"
    by (simp add: updatedStageSize_core_def origin_setTo_def pivotPoint_setTo_def Point_setTo_def
      core_defs Let_def fun_eq_iff)
  have 5: "t_origin (fst core_resized 0) = new_Point 512 384"
    "t_pivotPoint (fst core_resized 0) = new_Point 512 384" "\<not> t_dirty (fst core_resized 0)"
    by (simp_all add: core_defs)
  have 6: "getConcatenatedMatrix 1 0 (fst core_resized)
       = Inr (fst core_resized, new_Matrix\<lparr>m_a := 2, m_tx := - 400\<rparr>)"
    by (simp add: core_defs)
  have 7: "local_matrix (fst core_resized 0) = new_Matrix\<lparr>m_a := 2, m_tx := - 512\<rparr>"
    by (simp add: local_matrix_def performTransformation_def setTo_def core_defs Let_def)
  have 8: "new_Camera 1 0 0 0 800 600 fresh_heap = (TypeError, Some camera_thrown)"
    by (simp add: new_Camera_def updatedStageSize_def setXY_def setOrigin_def
      camera_defs Let_def fun_eq_iff)
  have 9: "t_origin (fst camera_thrown 0) = new_Point (- 400) (- 300)"
    "t_pivotPoint (fst camera_thrown 0) = new_Point 0 0"
    by (simp_all add: camera_defs)
  from 1 2 3 4 5 6 7 8 9 show ?thesis by (intro conjI)
qed

lemmas box_defs = box_owner_100_def box_owner_100_read_def box_owner_0_read_def new_Box2_def
  fresh_heap_def new_Transform_def new_Point_def new_Matrix_def

lemmas check_defs = check_def Box2_clean_def invertCopy_def invert_def clone_def setTo_def
  setToMatrix_def performTransformation_def transformPoint_def Let_def

section \<open>Box2: the containment test\<close>

text \<open>
  C4. The claim is containment in \<open>(ox, ox + w) \<times> (oy, oy + h)\<close>. The code compares the
  local point with the offset below and with the dimensions alone above, so with offset
  \<open>(10, 10)\<close>, dimensions \<open>(32, 32)\<close> and an owner at the origin the point \<open>(35, 35)\<close>,
  which is its own local point and lies between 10 and 42, is rejected.
\<close>

theorem check_ignores_offset_in_upper_bound:
  "check 1 (new_Point 35 35) (fresh_heap, new_Box2 0 10 10 32 32)
     = Inr ((box_owner_0_read,
             (new_Box2 0 10 10 32 32)\<lparr>b_invertedTransformMatrix := Some new_Matrix\<rparr>), False)
   \<and> transformPoint new_Matrix (new_Point 35 35) = new_Point 35 35
   \<and> (10::real) < 35 \<and> (35::real) < 10 + 32"
  by (simp add: check_defs box_defs fun_eq_iff)

text \<open>The scenario of the claim, with offset \<open>(0, 0)\<close>, comes out as the claim has it.\<close>

lemma check_scenario:
  "check 1 (new_Point 115 115) (box_owner_100, new_Box2 0 0 0 32 32)
     = Inr ((box_owner_100_read,
             (new_Box2 0 0 0 32 32)\<lparr>b_invertedTransformMatrix :=
                Some (new_Matrix\<lparr>m_tx := - 100, m_ty := - 100\<rparr>)\<rparr>), True)"
  "check 1 (new_Point 99 99) (box_owner_100, new_Box2 0 0 0 32 32)
     = Inr ((box_owner_100_read,
             (new_Box2 0 0 0 32 32)\<lparr>b_invertedTransformMatrix :=
                Some (new_Matrix\<lparr>m_tx := - 100, m_ty := - 100\<rparr>)\<rparr>), False)"
  by (simp_all add: check_defs box_defs fun_eq_iff)

text \<open>What the code decides in general.\<close>

lemma check_decides:
  assumes "check fuel pt s = Inr (s1, r)"
  shows "\<exists>im. b_invertedTransformMatrix (snd s1) = Some im
           \<and> b_offset (snd s1) = b_offset (snd s) \<and> b_dimensions (snd s1) = b_dimensions (snd s)
           \<and> (r \<longleftrightarrow> pt_x (b_offset (snd s)) < pt_x (transformPoint im pt)
                    \<and> pt_x (transformPoint im pt) < pt_x (b_dimensions (snd s))
                    \<and> pt_y (b_offset (snd s)) < pt_y (transformPoint im pt)
                    \<and> pt_y (transformPoint im pt) < pt_y (b_dimensions (snd s)))"
  using assms
  by (auto simp: check_def Box2_clean_def Let_def split: sum.splits option.splits if_splits prod.splits)

text \<open>A box is dirty from its constructor on and nothing clears the flag, so every
  \<open>check\<close> inverts the owner's current concatenated matrix.\<close>

lemma check_uses_current_matrix:
  assumes "b_dirty (snd s)" and "getConcatenatedMatrix fuel (b_owner (snd s)) (fst s) = Inr (h1, cm)"
    and "invertCopy cm = Inr im"
  shows "check fuel pt s =
     Inr ((h1, (snd s)\<lparr>b_invertedTransformMatrix := Some im\<rparr>),
          pt_x (b_offset (snd s)) < pt_x (transformPoint im pt)
          \<and> pt_x (transformPoint im pt) < pt_x (b_dimensions (snd s))
          \<and> pt_y (b_offset (snd s)) < pt_y (transformPoint im pt)
          \<and> pt_y (transformPoint im pt) < pt_y (b_dimensions (snd s)))"
  using assms by (simp add: check_def Box2_clean_def Let_def)

section \<open>Tile layer: the visible range in the scenario\<close>

lemma ceiling_600_32: "\<lceil>(600::real) / 32\<rceil> = 19" "\<lceil>(75::real) / 4\<rceil> = 19"
  by (simp_all add: ceiling_eq_iff)

lemma Point_eq: "(p::Point)\<lparr>pt_x := x, pt_y := y\<rparr> = new_Point x y"
  by (cases p) (simp add: new_Point_def)

lemma corner_to_world_first:
  "corner_to_world (Suc n) get put (camera_at_origin, l) =
     Inr (camera_cleaned, put (get l) l)"
  by (simp add: corner_to_world_def transformStageToWorld_def Camera_clean_def invert_def
      setTo_def setToMatrix_def performTransformation_def transformPointInPlace_def
      camera_defs Let_def fun_eq_iff)

lemma corner_to_world_clean:
  "corner_to_world (Suc n) get put (camera_cleaned, l) =
     Inr (camera_cleaned, put (get l) l)"
  by (simp add: corner_to_world_def transformStageToWorld_def transformPointInPlace_def
      camera_defs Let_def)

lemma corners_to_world_scenario:
  "corners_to_world (Suc n) (camera_at_origin, l) = Inr (camera_cleaned, l)"
  by (simp add: corners_to_world_def corner_to_world_first corner_to_world_clean)

lemma init_corners_scenario:
  "init_corners (scenario_dims L) =
     (scenario_dims L)\<lparr>l_corner1 := new_Point 0 0, l_corner2 := new_Point 800 0,
                       l_corner3 := new_Point 800 600, l_corner4 := new_Point 0 600\<rparr>"
  by (simp add: init_corners_def scenario_dims_def Point_setTo_def Point_eq Let_def)

lemma invert_clone_new: "invert (clone new_Matrix) = Inr new_Matrix"
  by (simp add: invert_def clone_def setTo_def new_Matrix_def Let_def)

lemma transformPointInPlace_new: "transformPointInPlace new_Matrix (new_Point x y) = new_Point x y"
  by (simp add: transformPointInPlace_def new_Matrix_def new_Point_def Let_def)

lemma corners_to_layer_scenario:
  "corners_to_layer new_Matrix
     ((scenario_dims L)\<lparr>l_corner1 := new_Point 0 0, l_corner2 := new_Point 800 0,
                       l_corner3 := new_Point 800 600, l_corner4 := new_Point 0 600\<rparr>)
   = (scenario_dims L)\<lparr>l_corner1 := new_Point 0 0, l_corner2 := new_Point 800 0,
                       l_corner3 := new_Point 800 600, l_corner4 := new_Point 0 600\<rparr>"
  by (simp add: corners_to_layer_def transformPointInPlace_new Let_def)

lemma find_min_max_scenario:
  "find_min_max
     ((scenario_dims L)\<lparr>l_corner1 := new_Point 0 0, l_corner2 := new_Point 800 0,
                       l_corner3 := new_Point 800 600, l_corner4 := new_Point 0 600\<rparr>)
   = (scenario_dims L)\<lparr>l_corner1 := new_Point 0 0, l_corner2 := new_Point 800 0,
                       l_corner3 := new_Point 800 600, l_corner4 := new_Point 0 600,
                       l_startX := 0, l_startY := 0, l_maxX := 800, l_maxY := 600\<rparr>"
  by (simp add: find_min_max_def new_Point_def Let_def)

lemma to_tile_units_scenario:
  "to_tile_units
     ((scenario_dims L)\<lparr>l_corner1 := new_Point 0 0, l_corner2 := new_Point 800 0,
                       l_corner3 := new_Point 800 600, l_corner4 := new_Point 0 600,
                       l_startX := 0, l_startY := 0, l_maxX := 800, l_maxY := 600\<rparr>)
   = Inr ((scenario_dims L)\<lparr>l_corner1 := new_Point 0 0, l_corner2 := new_Point 800 0,
                       l_corner3 := new_Point 800 600, l_corner4 := new_Point 0 600,
                       l_startX := 0, l_startY := 0, l_maxX := 25, l_maxY := 75 / 4\<rparr>)"
  by (simp add: to_tile_units_def scenario_dims_def Let_def)

lemma truncate_units_scenario:
  "truncate_units
     ((scenario_dims L)\<lparr>l_corner1 := new_Point 0 0, l_corner2 := new_Point 800 0,
                       l_corner3 := new_Point 800 600, l_corner4 := new_Point 0 600,
                       l_startX := 0, l_startY := 0, l_maxX := 25, l_maxY := 75 / 4\<rparr>)
   = (scenario_dims L)\<lparr>l_corner1 := new_Point 0 0, l_corner2 := new_Point 800 0,
                       l_corner3 := new_Point 800 600, l_corner4 := new_Point 0 600,
                       l_startX := 0, l_startY := 0, l_maxX := 25, l_maxY := 19\<rparr>"
  by (simp add: truncate_units_def ceiling_600_32 Let_def)

lemma clamp_to_range_scenario:
  "clamp_to_range
     ((scenario_dims L)\<lparr>l_corner1 := new_Point 0 0, l_corner2 := new_Point 800 0,
                       l_corner3 := new_Point 800 600, l_corner4 := new_Point 0 600,
                       l_startX := 0, l_startY := 0, l_maxX := 25, l_maxY := 19\<rparr>)
   = scenario_result L"
  by (simp add: clamp_to_range_def clamp_def scenario_result_def scenario_dims_def new_Point_def Let_def)

lemma calculateBoundaries_scenario_run:
  "calculateBoundaries (Suc n) new_Matrix (camera_at_origin, scenario_dims L)
     = Inr (camera_cleaned, scenario_result L)"
  by (simp add: calculateBoundaries_def init_corners_scenario corners_to_world_scenario
      invert_clone_new corners_to_layer_scenario find_min_max_scenario to_tile_units_scenario
      truncate_units_scenario clamp_to_range_scenario)

lemma scenario_layer_dims: "scenario_dims scenario_layer = scenario_layer"
  by (simp add: scenario_dims_def scenario_layer_def)

lemma scenario_layer_result: "scenario_result scenario_layer = scenario_bounds"
  by (simp add: scenario_result_def scenario_bounds_def scenario_layer_dims)

text \<open>
  C6, as stated, fails. In the scenario the bounds are \<open>startX = 0\<close>, \<open>maxX = 25\<close>,
  \<open>startY = 0\<close>, \<open>maxY = 19\<close>; the loops of \<open>renderGL\<close> run over \<open>startX \<le> x < maxX\<close> and
  \<open>startY \<le> y < maxY\<close>, which are 25 columns and 19 rows, not the 26 and 20 of the claim.
\<close>

theorem calculateBoundaries_counterexample:
  "calculateBoundaries 1 new_Matrix (camera_at_origin, scenario_layer)
     = Inr (camera_cleaned, scenario_bounds)
   \<and> l_maxX scenario_bounds - l_startX scenario_bounds = 25
   \<and> l_maxY scenario_bounds - l_startY scenario_bounds = 19
   \<and> \<not> (of_int \<lceil>(800::real) / 32\<rceil> + 1 \<le> l_maxX scenario_bounds - l_startX scenario_bounds)
   \<and> \<not> (of_int \<lceil>(600::real) / 32\<rceil> + 1 \<le> l_maxY scenario_bounds - l_startY scenario_bounds)"
proof -
  have "calculateBoundaries 1 new_Matrix (camera_at_origin, scenario_layer)
     = Inr (camera_cleaned, scenario_bounds)"
    using calculateBoundaries_scenario_run [of 0 scenario_layer]
    by (simp only: scenario_layer_dims scenario_layer_result One_nat_def)
  then show ?thesis
    by (simp add: scenario_bounds_def ceiling_600_32)
qed

text \<open>
  C6, amended. In the scenario \<open>_calculateBoundaries\<close> returns with \<open>startX = 0\<close>,
  \<open>maxX = 25\<close>, \<open>startY = 0\<close>, \<open>maxY = 19\<close>: \<open>ceil(800/32)\<close> columns and \<open>ceil(600/32)\<close> rows
  between the lower bound and the upper bound, which is excluded. The bounds reach over
  the whole stage (the 19th row is only partly visible), and all four lie in \<open>[0, 100)\<close>.
\<close>

theorem calculateBoundaries_scenario:
  "calculateBoundaries 1 new_Matrix (camera_at_origin, scenario_dims L)
     = Inr (camera_cleaned, scenario_result L)
   \<and> l_startX (scenario_result L) = 0 \<and> l_maxX (scenario_result L) = 25
   \<and> l_startY (scenario_result L) = 0 \<and> l_maxY (scenario_result L) = 19
   \<and> l_maxX (scenario_result L) - l_startX (scenario_result L) = of_int \<lceil>(800::real) / 32\<rceil>
   \<and> l_maxY (scenario_result L) - l_startY (scenario_result L) = of_int \<lceil>(600::real) / 32\<rceil>
   \<and> l_startX (scenario_result L) * 32 \<le> 0 \<and> 800 \<le> l_maxX (scenario_result L) * 32
   \<and> l_startY (scenario_result L) * 32 \<le> 0 \<and> 600 \<le> l_maxY (scenario_result L) * 32
   \<and> 0 \<le> l_startX (scenario_result L) \<and> l_maxX (scenario_result L) < 100
   \<and> 0 \<le> l_startY (scenario_result L) \<and> l_maxY (scenario_result L) < 100"
  by (simp add: calculateBoundaries_scenario_run scenario_result_def ceiling_600_32)

section \<open>Batch: the texture coordinates of the quads\<close>

lemma array_get_in_set: "array_get xs i = Some x \<Longrightarrow> x \<in> set xs"
  by (auto simp: array_get_def split: if_splits)

lemma inset_quads_append:
  "inset_quads cells qs \<Longrightarrow> inset_quads cells qs' \<Longrightarrow> inset_quads cells (qs @ qs')"
  by (auto simp: inset_quads_def)

lemma renderGL_tile_quads:
  assumes "renderGL_tile m x y s = Inr s1"
  shows "l_cells (fst s1) = l_cells (fst s)
       \<and> (\<exists>qs. snd s1 = snd s @ concat qs \<and> length qs \<le> 1 \<and> inset_quads (l_cells (fst s)) qs)"
proof -
  from assms obtain tt where tt: "getTileFromXY (fst s) x y = Some tt"
    by (auto simp: renderGL_tile_def Let_def split: option.splits)
  show ?thesis
  proof (cases "tt_cellIndex tt = - 1")
    case True
    with assms tt have "s1 = ((fst s)\<lparr>l_temptype := Some tt\<rparr>, snd s)"
      by (simp add: renderGL_tile_def Let_def)
    then have "l_cells (fst s1) = l_cells (fst s)" "snd s1 = snd s @ concat []"
      by simp_all
    moreover have "inset_quads (l_cells (fst s)) []" by (simp add: inset_quads_def)
    ultimately show ?thesis by (metis le0 list.size(3))
  next
    case False
    with assms tt obtain cell where cell: "array_get (l_cells (fst s)) (tt_cellIndex tt) = Some cell"
      by (auto simp: renderGL_tile_def Let_def split: option.splits)
    from assms tt False cell obtain q where
      c: "l_cells (fst s1) = l_cells (fst s)" and q: "snd s1 = snd s @ q" and
      l: "length q = 20" and uv: "quad_uv q = inset_uv cell"
      by (auto simp: renderGL_tile_def Let_def quad_uv_def inset_uv_def)
    have "inset_quads (l_cells (fst s)) [q]"
      using l uv array_get_in_set [OF cell] by (auto simp: inset_quads_def)
    moreover have "snd s1 = snd s @ concat [q]" using q by simp
    ultimately show ?thesis using c by (metis One_nat_def le_refl length_Cons list.size(3))
  qed
qed

text \<open>The inner loop appends whole quads with inset coordinates, at most one for each
  \<open>x\<close> from the start up to, and not including, \<open>_maxX\<close>.\<close>

lemma renderGL_row_quads:
  "renderGL_row m y x s = Inr s1 \<Longrightarrow>
   l_cells (fst s1) = l_cells (fst s)
   \<and> (\<exists>qs. snd s1 = snd s @ concat qs \<and> length qs \<le> nat \<lceil>l_maxX (fst s) - x\<rceil>
           \<and> inset_quads (l_cells (fst s)) qs)"
proof (induction m y x s rule: renderGL_row.induct)
  case (1 m y x s)
  note unfold = renderGL_row.simps [of m y x s]
  show ?case
  proof (cases "x < l_maxX (fst s)")
    case False
    with "1.prems" unfold have "s1 = s" by simp
    moreover have "inset_quads (l_cells (fst s)) []" by (simp add: inset_quads_def)
    ultimately show ?thesis by (intro conjI exI [of _ "[]"]) simp_all
  next
    case True
    with "1.prems" unfold
    have run: "(case renderGL_tile m x y s of Inl err \<Rightarrow> Inl err
                | Inr s2 \<Rightarrow> renderGL_row m y (x + 1) s2) = Inr s1"
      by simp
    then obtain s2 where tile: "renderGL_tile m x y s = Inr s2"
      and rest: "renderGL_row m y (x + 1) s2 = Inr s1"
      by (cases "renderGL_tile m x y s") simp_all
    from renderGL_tile_quads [OF tile] obtain qa where
      ca: "l_cells (fst s2) = l_cells (fst s)" and a: "snd s2 = snd s @ concat qa"
      and la: "length qa \<le> 1" and ia: "inset_quads (l_cells (fst s)) qa"
      by blast
    from "1.IH" [OF True tile rest] obtain qb where
      cb: "l_cells (fst s1) = l_cells (fst s2)" and b: "snd s1 = snd s2 @ concat qb"
      and lb: "length qb \<le> nat \<lceil>l_maxX (fst s2) - (x + 1)\<rceil>"
      and ib: "inset_quads (l_cells (fst s2)) qb"
      by blast
    have mx: "l_maxX (fst s2) = l_maxX (fst s)" using renderGL_tile_keeps(1) [OF tile] .
    have "l_maxX (fst s) - (x + 1) = (l_maxX (fst s) - x) - 1" by simp
    then have eq: "\<lceil>l_maxX (fst s) - (x + 1)\<rceil> = \<lceil>l_maxX (fst s) - x\<rceil> - 1"
      by (simp only: ceiling_diff_one)
    have pos: "0 < \<lceil>l_maxX (fst s) - x\<rceil>" using True by simp
    have "Suc (nat (\<lceil>l_maxX (fst s) - x\<rceil> - 1)) = nat \<lceil>l_maxX (fst s) - x\<rceil>"
      using pos by arith
    then have "Suc (nat \<lceil>l_maxX (fst s) - (x + 1)\<rceil>) = nat \<lceil>l_maxX (fst s) - x\<rceil>"
      by (simp only: eq)
    with la lb mx have len: "length (qa @ qb) \<le> nat \<lceil>l_maxX (fst s) - x\<rceil>" by simp
    have "snd s1 = snd s @ concat (qa @ qb)" using a b by simp
    moreover have "inset_quads (l_cells (fst s)) (qa @ qb)"
      using ia ib ca by (simp add: inset_quads_append)
    ultimately show ?thesis using ca cb len by metis
  qed
qed

lemma renderGL_rows_quads:
  "renderGL_rows m y s = Inr s1 \<Longrightarrow>
   l_cells (fst s1) = l_cells (fst s)
   \<and> (\<exists>qs. snd s1 = snd s @ concat qs \<and> inset_quads (l_cells (fst s)) qs)"
proof (induction m y s rule: renderGL_rows.induct)
  case (1 m y s)
  note unfold = renderGL_rows.simps [of m y s]
  show ?case
  proof (cases "y < l_maxY (fst s)")
    case False
    with "1.prems" unfold have "s1 = s" by simp
    moreover have "inset_quads (l_cells (fst s)) []" by (simp add: inset_quads_def)
    ultimately show ?thesis by (intro conjI exI [of _ "[]"]) simp_all
  next
    case True
    with "1.prems" unfold
    have run: "(case renderGL_row m y (l_startX (fst s)) s of Inl err \<Rightarrow> Inl err
                | Inr s2 \<Rightarrow> renderGL_rows m (y + 1) s2) = Inr s1"
      by simp
    then obtain s2 where row: "renderGL_row m y (l_startX (fst s)) s = Inr s2"
      and rest: "renderGL_rows m (y + 1) s2 = Inr s1"
      by (cases "renderGL_row m y (l_startX (fst s)) s") simp_all
    from renderGL_row_quads [OF row] obtain qa where
      ca: "l_cells (fst s2) = l_cells (fst s)" and a: "snd s2 = snd s @ concat qa"
      and ia: "inset_quads (l_cells (fst s)) qa"
      by blast
    from "1.IH" [OF True row rest] obtain qb where
      cb: "l_cells (fst s1) = l_cells (fst s2)" and b: "snd s1 = snd s2 @ concat qb"
      and ib: "inset_quads (l_cells (fst s2)) qb"
      by blast
    have "snd s1 = snd s @ concat (qa @ qb)" using a b by simp
    moreover have "inset_quads (l_cells (fst s)) (qa @ qb)"
      using ia ib ca by (simp add: inset_quads_append)
    ultimately show ?thesis using ca cb by metis
  qed
qed

lemma corner_to_world_cells:
  "corner_to_world fuel get put s = Inr s1 \<Longrightarrow> (\<And>p l. l_cells (put p l) = l_cells l) \<Longrightarrow>
   l_cells (snd s1) = l_cells (snd s)"
  by (auto simp: corner_to_world_def split: sum.splits prod.splits)

lemma calculateBoundaries_cells:
  assumes "calculateBoundaries fuel m s = Inr s1"
  shows "l_cells (snd s1) = l_cells (snd s)"
proof -
  from assms obtain s4 im l16 where
    w: "corners_to_world fuel (fst s, init_corners (snd s)) = Inr s4" and
    u: "to_tile_units (find_min_max (corners_to_layer im (snd s4))) = Inr l16" and
    r: "s1 = (fst s4, clamp_to_range (truncate_units l16))"
    by (auto simp: calculateBoundaries_def split: sum.splits)
  from w obtain a b c where
    "corner_to_world fuel l_corner1 (\<lambda>p l. l\<lparr>l_corner1 := p\<rparr>) (fst s, init_corners (snd s)) = Inr a"
    "corner_to_world fuel l_corner2 (\<lambda>p l. l\<lparr>l_corner2 := p\<rparr>) a = Inr b"
    "corner_to_world fuel l_corner3 (\<lambda>p l. l\<lparr>l_corner3 := p\<rparr>) b = Inr c"
    "corner_to_world fuel l_corner4 (\<lambda>p l. l\<lparr>l_corner4 := p\<rparr>) c = Inr s4"
    by (auto simp: corners_to_world_def split: sum.splits)
  then have "l_cells (snd s4) = l_cells (init_corners (snd s))"
    using corner_to_world_cells [of fuel l_corner1 "\<lambda>p l. l\<lparr>l_corner1 := p\<rparr>" _ a]
      corner_to_world_cells [of fuel l_corner2 "\<lambda>p l. l\<lparr>l_corner2 := p\<rparr>" a b]
      corner_to_world_cells [of fuel l_corner3 "\<lambda>p l. l\<lparr>l_corner3 := p\<rparr>" b c]
      corner_to_world_cells [of fuel l_corner4 "\<lambda>p l. l\<lparr>l_corner4 := p\<rparr>" c s4]
    by simp
  moreover have "l_cells (init_corners l) = l_cells l" for l
    by (simp add: init_corners_def Let_def)
  moreover have "l_cells l16 = l_cells (snd s4)"
    using u by (auto simp: to_tile_units_def find_min_max_def corners_to_layer_def Let_def
        split: if_splits)
  moreover have "l_cells (clamp_to_range (truncate_units l)) = l_cells l" for l
    by (simp add: clamp_to_range_def truncate_units_def Let_def)
  ultimately show ?thesis using r by simp
qed

lemma renderGL_quads:
  assumes "renderGL fuel s = Inr (s', r')"
  shows "\<exists>qs. r_items r' = r_items (snd s) @ concat qs \<and> inset_quads (l_cells (snd (fst s))) qs"
proof -
  from assms obtain h1 m s1 layer1 layer2 vertexItems where
    b: "calculateBoundaries fuel m ((h1, snd (fst (fst s))), snd (fst s)) = Inr (s1, layer1)" and
    l: "renderGL_rows m (l_startY layer1) (layer1, []) = Inr (layer2, vertexItems)" and
    r: "r' = concatBatch vertexItems (snd s)"
    by (auto simp: renderGL_def Let_def split: sum.splits prod.splits)
  from calculateBoundaries_cells [OF b] have c: "l_cells layer1 = l_cells (snd (fst s))" by simp
  from renderGL_rows_quads [OF l] c obtain qs where
    "vertexItems = concat qs" "inset_quads (l_cells (snd (fst s))) qs"
    by auto
  with r show ?thesis by (auto simp: concatBatch_def)
qed

lemma addToBatch_quad:
  assumes "addToBatch fuel e s = Inr (h', r')" and "0 < e_alpha e"
  shows "\<exists>q cell. r_items r' = r_items (snd s) @ q \<and> length q = 20
           \<and> array_get (e_cells e) (e_cellIndex e) = Some cell \<and> quad_uv q = full_uv cell"
  using assms
  by (auto simp: addToBatch_def Let_def quad_uv_def full_uv_def split: sum.splits option.splits
      prod.splits)

lemma fresh_heap_read:
  "getConcatenatedMatrix (Suc n) 0 fresh_heap = Inr (box_owner_0_read, new_Matrix)"
  by (simp add: performTransformation_def setTo_def setToMatrix_def box_owner_0_read_def
      fresh_heap_def new_Transform_def new_Point_def new_Matrix_def Let_def fun_eq_iff)

lemma sprite_run:
  "addToBatch 1 sprite (fresh_heap, empty_renderer) = Inr (box_owner_0_read, sprite_batch)"
  apply (simp add: addToBatch_def fresh_heap_read sprite_def del: getConcatenatedMatrix.simps)
  apply (simp add: sprite_cell_def empty_renderer_def sprite_batch_def array_get_def
      Point_setTo_def transformPointInPlace_def new_Point_def new_Matrix_def Let_def)
  done

text \<open>
  C7, as stated, fails on the entity path: the quad that \<open>addToBatch\<close> appends for a cell
  at \<open>(0, 0)\<close> of 32 by 32 has the far texture coordinates 32, the whole cell, not 31.
\<close>

theorem addToBatch_counterexample:
  "addToBatch 1 sprite (fresh_heap, empty_renderer) = Inr (box_owner_0_read, sprite_batch)
   \<and> array_get (e_cells sprite) (e_cellIndex sprite) = Some sprite_cell
   \<and> quad_uv (r_items sprite_batch) = [(0, 0), (32, 0), (32, 32), (0, 32)]
   \<and> inset_uv sprite_cell = [(0, 0), (31, 0), (31, 31), (0, 31)]
   \<and> quad_uv (r_items sprite_batch) \<noteq> inset_uv sprite_cell"
proof (intro conjI)
  show "addToBatch 1 sprite (fresh_heap, empty_renderer) = Inr (box_owner_0_read, sprite_batch)"
    by (rule sprite_run)
qed (simp_all add: sprite_def sprite_cell_def sprite_batch_def array_get_def quad_uv_def
      inset_uv_def)

lemma tiny_matrix:
  "getConcatenatedMatrix (Suc n) (Suc 0) (fst camera_cleaned) = Inr (tiny_heap, new_Matrix)"
  by (simp add: tiny_heap_def performTransformation_def setTo_def setToMatrix_def camera_defs
      Let_def fun_eq_iff)

lemma tiny_corner:
  "corner_to_world (Suc n) get put ((tiny_heap, snd camera_cleaned), l) =
     Inr ((tiny_heap, snd camera_cleaned), put (get l) l)"
  by (simp add: corner_to_world_def transformStageToWorld_def transformPointInPlace_def
      camera_defs Let_def)

lemma tiny_boundaries:
  "calculateBoundaries (Suc n) new_Matrix ((tiny_heap, snd camera_cleaned), tiny_layer)
     = Inr ((tiny_heap, snd camera_cleaned), tiny_bounds)"
  by (simp add: calculateBoundaries_def corners_to_world_def tiny_corner invert_clone_new)
     (simp add: init_corners_def corners_to_layer_def find_min_max_def to_tile_units_def
      truncate_units_def clamp_to_range_def clamp_def tiny_layer_def tiny_bounds_def
      Point_setTo_def transformPointInPlace_def ceiling_600_32 new_Point_def new_Matrix_def Let_def)

lemma tiny_tile_0:
  "renderGL_tile new_Matrix 0 0 (tiny_bounds, []) =
     Inr (tiny_bounds\<lparr>l_corner1 := new_Point 0 0, l_corner2 := new_Point 32 0,
                 l_corner3 := new_Point 32 32, l_corner4 := new_Point 0 32,
                 l_temptype := Some \<lparr>tt_cellIndex = 0, tt_offset = new_Point 0 0\<rparr>\<rparr>,
          tiny_items ! 0)"
  by (simp add: renderGL_tile_def getTileFromXY_def dense_data2_def array_get_def
      tiny_bounds_def tiny_layer_def tiny_items_def sprite_cell_def Point_setTo_def
      transformPointInPlace_def new_Point_def new_Matrix_def Let_def)

lemma tiny_tile_1:
  "renderGL_tile new_Matrix 1 0
     (tiny_bounds\<lparr>l_corner1 := new_Point 0 0, l_corner2 := new_Point 32 0,
                 l_corner3 := new_Point 32 32, l_corner4 := new_Point 0 32,
                 l_temptype := Some \<lparr>tt_cellIndex = 0, tt_offset = new_Point 0 0\<rparr>\<rparr>,
      tiny_items ! 0) =
     Inr (tiny_rendered, concat tiny_items)"
  by (simp add: renderGL_tile_def getTileFromXY_def dense_data2_def array_get_def
      tiny_rendered_def tiny_bounds_def tiny_layer_def tiny_items_def sprite_cell_def
      Point_setTo_def transformPointInPlace_def new_Point_def new_Matrix_def Let_def)

lemma tiny_fields:
  "l_maxX tiny_bounds = 2" "l_maxY tiny_bounds = 1" "l_startX tiny_bounds = 0"
  "l_startY tiny_bounds = 0"
  "l_maxX tiny_rendered = 2" "l_maxY tiny_rendered = 1" "l_startX tiny_rendered = 0"
  "l_maxX (tiny_bounds\<lparr>l_corner1 := c1, l_corner2 := c2, l_corner3 := c3, l_corner4 := c4,
                 l_temptype := tt\<rparr>) = 2"
  by (simp_all add: tiny_bounds_def tiny_rendered_def)

lemma tiny_row:
  "renderGL_row new_Matrix 0 0 (tiny_bounds, []) = Inr (tiny_rendered, concat tiny_items)"
proof -
  have 3: "renderGL_row new_Matrix 0 2 (tiny_rendered, concat tiny_items)
             = Inr (tiny_rendered, concat tiny_items)"
    by (subst renderGL_row.simps) (simp add: tiny_fields)
  have 2: "renderGL_row new_Matrix 0 1
             (tiny_bounds\<lparr>l_corner1 := new_Point 0 0, l_corner2 := new_Point 32 0,
                 l_corner3 := new_Point 32 32, l_corner4 := new_Point 0 32,
                 l_temptype := Some \<lparr>tt_cellIndex = 0, tt_offset = new_Point 0 0\<rparr>\<rparr>,
              tiny_items ! 0)
             = Inr (tiny_rendered, concat tiny_items)"
    by (subst renderGL_row.simps) (simp add: tiny_fields tiny_tile_1 3)
  show ?thesis
    by (subst renderGL_row.simps) (simp add: tiny_fields tiny_tile_0 2)
qed

lemma tiny_rows:
  "renderGL_rows new_Matrix 0 (tiny_bounds, []) = Inr (tiny_rendered, concat tiny_items)"
proof -
  have 1: "renderGL_rows new_Matrix 1 (tiny_rendered, concat tiny_items)
             = Inr (tiny_rendered, concat tiny_items)"
    by (subst renderGL_rows.simps) (simp add: tiny_fields)
  show ?thesis
    by (subst renderGL_rows.simps) (simp add: tiny_fields tiny_row 1)
qed

lemma tiny_run:
  "renderGL 1 ((camera_cleaned, tiny_layer), empty_renderer)
     = Inr (((tiny_heap, snd camera_cleaned), tiny_rendered),
            empty_renderer\<lparr>r_items := concat tiny_items\<rparr>)"
proof -
  have t: "l_transform tiny_layer = 1" by (simp add: tiny_layer_def)
  show ?thesis
    by (simp add: renderGL_def t tiny_matrix tiny_boundaries tiny_fields tiny_rows
        concatBatch_def empty_renderer_def Let_def del: getConcatenatedMatrix.simps)
qed

text \<open>
  C7, amended. Whatever \<open>renderGL\<close> of the tile layer hands to the renderer is a sequence
  of quads whose texture coordinates are those of a cell of the atlas with the far edge
  inset by one: \<open>cell.x + cell.w - 1\<close> on the right, \<open>cell.y + cell.h - 1\<close> at the bottom,
  \<open>cell.x\<close> and \<open>cell.y\<close> on the near edges. The quad that \<open>addToBatch\<close> appends for an
  entity of positive alpha has the coordinates of the whole cell, \<open>cell.x + cell.w\<close> and
  \<open>cell.y + cell.h\<close> on the far edges.
\<close>

theorem quad_texture_coordinates:
  "(renderGL fuel s = Inr (s', r') \<longrightarrow>
      (\<exists>qs. r_items r' = r_items (snd s) @ concat qs
            \<and> inset_quads (l_cells (snd (fst s))) qs))
   \<and> (addToBatch fuel e s2 = Inr (h2, r2) \<longrightarrow> 0 < e_alpha e \<longrightarrow>
      (\<exists>q cell. r_items r2 = r_items (snd s2) @ q \<and> length q = 20
           \<and> array_get (e_cells e) (e_cellIndex e) = Some cell \<and> quad_uv q = full_uv cell))"
  using renderGL_quads addToBatch_quad by blast

theorem quad_texture_coordinates_witness:
  "renderGL 1 ((camera_cleaned, tiny_layer), empty_renderer)
     = Inr (((tiny_heap, snd camera_cleaned), tiny_rendered),
            empty_renderer\<lparr>r_items := concat tiny_items\<rparr>)
   \<and> (\<exists>qs. concat tiny_items = concat qs
           \<and> list_all (\<lambda>q. length q = 20 \<and> quad_uv q = inset_uv sprite_cell) qs)
   \<and> addToBatch 1 sprite (fresh_heap, empty_renderer) = Inr (box_owner_0_read, sprite_batch)
   \<and> (\<exists>q. r_items sprite_batch = q \<and> length q = 20 \<and> quad_uv q = full_uv sprite_cell)"
proof -
  note T = quad_texture_coordinates [of 1 "((camera_cleaned, tiny_layer), empty_renderer)"
      "((tiny_heap, snd camera_cleaned), tiny_rendered)"
      "empty_renderer\<lparr>r_items := concat tiny_items\<rparr>"
      sprite "(fresh_heap, empty_renderer)" box_owner_0_read sprite_batch]
  have a: "0 < e_alpha sprite" by (simp add: sprite_def)
  from T [THEN conjunct1, rule_format, OF tiny_run] obtain qs where
    "concat tiny_items = concat qs" "inset_quads [sprite_cell] qs"
    by (auto simp: empty_renderer_def tiny_layer_def)
  then have 1: "\<exists>qs. concat tiny_items = concat qs
           \<and> list_all (\<lambda>q. length q = 20 \<and> quad_uv q = inset_uv sprite_cell) qs"
    by (auto simp: inset_quads_def list_all_iff)
  from T [THEN conjunct2, rule_format, OF sprite_run a] obtain q cell where
    "r_items sprite_batch = q" "length q = 20"
    "array_get [sprite_cell] 0 = Some cell" "quad_uv q = full_uv cell"
    by (auto simp: empty_renderer_def sprite_def)
  then have 2: "\<exists>q. r_items sprite_batch = q \<and> length q = 20 \<and> quad_uv q = full_uv sprite_cell"
    by (auto simp: array_get_def)
  from tiny_run 1 sprite_run 2 show ?thesis by blast
qed

section \<open>Matrix: inversion in exact arithmetic\<close>

text \<open>
  Over the real numbers, with a determinant other than zero, the product of a matrix
  and its inverted copy is the identity and inverting twice gives the matrix back,
  exactly.
\<close>

lemma invert_determinant:
  "invert m = Inr im \<Longrightarrow> m_a m * m_d m - m_b m * m_c m \<noteq> 0"
  by (auto simp: invert_def Let_def split: if_splits)




section \<open>Matrix: inversion in doubles\<close>

lemma bit_length_0 [simp]: "bit_length 0 = 0"
  by (simp add: bit_length.simps)

lemma bit_length_1 [simp]: "bit_length (Suc 0) = 1"
  by (simp add: bit_length.simps)

lemma bit_length_numeral [simp]:
  "bit_length (numeral k) = Suc (bit_length (numeral k div 2))"
  by (subst bit_length.simps) simp



lemma fl_0 [simp]: "fl 0 = Inr 0"
  by (simp add: fl_def)


lemma and_then_Inl [simp]: "and_then (Inl e) f = Inl e"
  by (simp add: and_then_def)























end
